theory Spec2Isabelle
  imports Complex_Main "HOL-Library.Multiset"
begin

section \<open>The stored data\<close>

text \<open>
  The program keeps one SQLite table, \<^verbatim>\<open>orders\<close>. A cell holds NULL, a number or a text.
  INTEGER and REAL cells are both numbers; they are taken as exact reals (the source's
  doubles without rounding). A row is an association list from column names to cells, a
  table is its list of column names together with its rows.
\<close>

datatype sqlval = SNull | SNum real | SText string

type_synonym row = "(string \<times> sqlval) list"

record table =
  cols :: "string list"
  rows :: "row list"

text \<open>The columns of the table as \<^verbatim>\<open>index.js\<close> creates it.\<close>

definition orders_columns :: "string list" where
  "orders_columns =
     [''number'', ''asin'', ''product'', ''orderedAt'', ''deliveredAt'', ''etv'', ''etvFactor'',
      ''cancelled'', ''etvReason'', ''notes'']"

text \<open>Reading a column of a stored row; a cell that was never written reads NULL.\<close>

definition col :: "row \<Rightarrow> string \<Rightarrow> sqlval" where
  "col r c = (case map_of r c of Some v \<Rightarrow> v | None \<Rightarrow> SNull)"

section \<open>The schema migrator (migrate.js)\<close>

text \<open>
  What a connection sees is a \<open>dbstate\<close>: the schema-version marker
  (\<^verbatim>\<open>PRAGMA user_version\<close>) and the \<^verbatim>\<open>orders\<close> table, if it exists. While a
  transaction is open, \<open>snapshot\<close> holds the state at \<^verbatim>\<open>BEGIN\<close>: that is what every
  other reader still sees, and what \<^verbatim>\<open>ROLLBACK\<close> restores.
\<close>

record dbstate =
  user_version :: int
  orders :: "table option"

record db =
  live :: dbstate
  snapshot :: "dbstate option"

definition committed :: "db \<Rightarrow> dbstate" where
  "committed d = (case snapshot d of None \<Rightarrow> live d | Some s \<Rightarrow> s)"

text \<open>The statements \<^verbatim>\<open>migrate\<close> passes to \<^verbatim>\<open>db.exec\<close>, all on the table \<^verbatim>\<open>orders\<close>.\<close>

datatype stmt =
  BeginTransaction
  | DropColumn string
  | AddColumn string
  | SetUserVersion int
  | Commit
  | Rollback

datatype sqlerror =
  NoSuchTable
  | NoSuchColumn string
  | DuplicateColumn string
  | TransactionActive
  | NoTransaction
  | StorageFault stmt
  | SyntaxError

definition drop_column :: "string \<Rightarrow> table \<Rightarrow> table" where
  "drop_column c t =
     \<lparr>cols = filter (\<lambda>k. k \<noteq> c) (cols t),
      rows = map (filter (\<lambda>kv. fst kv \<noteq> c)) (rows t)\<rparr>"

definition add_column :: "string \<Rightarrow> table \<Rightarrow> table" where
  "add_column c t =
     \<lparr>cols = cols t @ [c],
      rows = map (\<lambda>r. filter (\<lambda>kv. fst kv \<noteq> c) r @ [(c, SNull)]) (rows t)\<rparr>"

text \<open>
  The effect of one statement on the state the connection sees. A statement that fails
  changes nothing.
\<close>

fun apply_stmt :: "stmt \<Rightarrow> db \<Rightarrow> sqlerror + db" where
  "apply_stmt BeginTransaction d =
     (case snapshot d of
        Some _ \<Rightarrow> Inl TransactionActive
      | None \<Rightarrow> Inr (d\<lparr>snapshot := Some (live d)\<rparr>))"
| "apply_stmt (DropColumn c) d =
     (case orders (live d) of
        None \<Rightarrow> Inl NoSuchTable
      | Some t \<Rightarrow>
          if c \<in> set (cols t)
          then Inr (d\<lparr>live := (live d)\<lparr>orders := Some (drop_column c t)\<rparr>\<rparr>)
          else Inl (NoSuchColumn c))"
| "apply_stmt (AddColumn c) d =
     (case orders (live d) of
        None \<Rightarrow> Inl NoSuchTable
      | Some t \<Rightarrow>
          if c \<in> set (cols t)
          then Inl (DuplicateColumn c)
          else Inr (d\<lparr>live := (live d)\<lparr>orders := Some (add_column c t)\<rparr>\<rparr>))"
| "apply_stmt (SetUserVersion v) d = Inr (d\<lparr>live := (live d)\<lparr>user_version := v\<rparr>\<rparr>)"
| "apply_stmt Commit d =
     (case snapshot d of
        None \<Rightarrow> Inl NoTransaction
      | Some _ \<Rightarrow> Inr (d\<lparr>snapshot := None\<rparr>))"
| "apply_stmt Rollback d =
     (case snapshot d of
        None \<Rightarrow> Inl NoTransaction
      | Some s \<Rightarrow> Inr \<lparr>live = s, snapshot = None\<rparr>)"

text \<open>
  \<^verbatim>\<open>db.exec\<close>: besides the failures above, any statement may fail for a reason outside
  the program (a full disk, an I/O error). The parameter \<open>faulty\<close> says which ones do; such
  a statement is aborted without effect and the transaction stays open.
\<close>

definition exec :: "(stmt \<Rightarrow> bool) \<Rightarrow> stmt \<Rightarrow> db \<Rightarrow> sqlerror + db" where
  "exec faulty s d = (if faulty s then Inl (StorageFault s) else apply_stmt s d)"

text \<open>
  The body of the \<^verbatim>\<open>try\<close> block: the statements run in order and the first failure
  leaves the block. The result carries the states the database went through, one per
  statement that succeeded, so that what a reader could observe in between is explicit.
\<close>

fun exec_all :: "(stmt \<Rightarrow> bool) \<Rightarrow> stmt list \<Rightarrow> db \<Rightarrow> sqlerror option \<times> db \<times> db list" where
  "exec_all faulty [] d = (None, d, [])"
| "exec_all faulty (s # ss) d =
     (case exec faulty s d of
        Inl e \<Rightarrow> (Some e, d, [])
      | Inr d' \<Rightarrow>
          (case exec_all faulty ss d' of (r, d'', tr) \<Rightarrow> (r, d'', d' # tr)))"

definition migration_steps :: "stmt list" where
  "migration_steps =
     [BeginTransaction, DropColumn ''cancelled'', AddColumn ''cancelledAt'',
      SetUserVersion 2, Commit]"

datatype log_entry =
  LogMigrating int int
  | LogSchemaUpdated
  | LogMigrationFailed sqlerror

record outcome =
  final :: db
  logged :: "log_entry list"
  thrown :: "sqlerror option"
  visited :: "db list"

text \<open>
  \<^verbatim>\<open>PRAGMA user_version\<close> always yields one row with an integer, so \<open>currentVersion\<close>
  is the stored marker; the source's fallbacks to 1 (no row, not a number) are never taken.
\<close>

definition TARGET_VERSION :: int where
  "TARGET_VERSION = 2"

definition migrate :: "(stmt \<Rightarrow> bool) \<Rightarrow> db \<Rightarrow> outcome" where
  "migrate faulty d =
     (let currentVersion = user_version (live d) in
      if currentVersion < TARGET_VERSION then
        if currentVersion < 2 then
          (case exec_all faulty migration_steps d of
             (None, d', tr) \<Rightarrow>
               \<lparr>final = d', logged = [LogMigrating currentVersion TARGET_VERSION, LogSchemaUpdated],
                thrown = None, visited = tr\<rparr>
           | (Some e, d', tr) \<Rightarrow>
               (case exec faulty Rollback d' of
                  Inr d'' \<Rightarrow>
                    \<lparr>final = d'',
                     logged = [LogMigrating currentVersion TARGET_VERSION, LogMigrationFailed e],
                     thrown = None, visited = tr @ [d'']\<rparr>
                | Inl e' \<Rightarrow>
                    \<lparr>final = d', logged = [LogMigrating currentVersion TARGET_VERSION],
                     thrown = Some e', visited = tr\<rparr>))
        else \<lparr>final = d, logged = [LogMigrating currentVersion TARGET_VERSION],
              thrown = None, visited = []\<rparr>
      else \<lparr>final = d, logged = [], thrown = None, visited = []\<rparr>)"

section \<open>Dates (the host's \<^verbatim>\<open>Date\<close>)\<close>

text \<open>
  The program builds its date bounds with the host's \<^verbatim>\<open>Date\<close>. A date holds a time
  value, the milliseconds since 1 January 1970 UTC, or NaN when it is invalid (\<open>None\<close>).
  The functions below are the ones the language standard defines for the operations the
  program calls, under the standard's names, on whole numbers. The local time zone is a
  fixed offset from UTC in milliseconds; a zone whose offset changes during the year is
  not modelled.
\<close>

type_synonym jsdate = "int option"

definition msPerDay :: int where
  "msPerDay = 86400000"

definition Day :: "int \<Rightarrow> int" where
  "Day t = t div msPerDay"

definition TimeWithinDay :: "int \<Rightarrow> int" where
  "TimeWithinDay t = t mod msPerDay"

definition DayFromYear :: "int \<Rightarrow> int" where
  "DayFromYear y =
     365 * (y - 1970) + (y - 1969) div 4 - (y - 1901) div 100 + (y - 1601) div 400"

definition InLeapYear :: "int \<Rightarrow> bool" where
  "InLeapYear y = (y mod 4 = 0 \<and> (y mod 100 \<noteq> 0 \<or> y mod 400 = 0))"

text \<open>
  The year of a time value is the last year that begins on or before its day. It is found
  by walking up from a year that begins early enough; the walk ends because every year has
  at least 365 days, which the next lemmas show.
\<close>

lemma div_succ:
  fixes a k :: int
  assumes "0 < k"
  shows "(a + 1) div k = (if (a + 1) mod k = 0 then a div k + 1 else a div k)"
proof (cases "(a + 1) mod k = 0")
  case True
  then obtain q where q: "a + 1 = k * q" by (auto simp: mod_eq_0_iff_dvd)
  then have a: "a = k * (q - 1) + (k - 1)" by (simp add: algebra_simps)
  have "a div k = q - 1"
    using assms by (subst a) (simp add: div_pos_pos_trivial)
  moreover have "(a + 1) div k = q" using assms q by simp
  ultimately show ?thesis using True by simp
next
  case False
  have m: "(a + 1) mod k = a mod k + 1"
  proof -
    have "0 \<le> a mod k" "a mod k < k" using assms by simp_all
    moreover have "a mod k + 1 \<noteq> k"
    proof
      assume "a mod k + 1 = k"
      then have "(a + 1) mod k = (k) mod k" by (metis mod_add_left_eq)
      with False show False by simp
    qed
    ultimately have "a mod k + 1 < k" by linarith
    then have "(a mod k + 1) mod k = a mod k + 1" using \<open>0 \<le> a mod k\<close> by simp
    then show ?thesis by (metis mod_add_left_eq)
  qed
  have "k * ((a + 1) div k) + (a + 1) mod k = a + 1" by simp
  moreover have "k * (a div k) + a mod k = a" by simp
  ultimately have "k * ((a + 1) div k) = k * (a div k)" using m by linarith
  then show ?thesis using assms False by simp
qed

lemma leap_100_4:
  fixes y :: int
  assumes "(y - 1900) mod 100 = 0"
  shows "(y - 1968) mod 4 = 0"
proof -
  from assms obtain q where "y - 1900 = 100 * q" by (auto simp: mod_eq_0_iff_dvd)
  then have "y - 1968 = 4 * (25 * q - 17)" by simp
  then show ?thesis by simp
qed

lemma leap_400_100:
  fixes y :: int
  assumes "(y - 1600) mod 400 = 0"
  shows "(y - 1900) mod 100 = 0"
proof -
  from assms obtain q where "y - 1600 = 400 * q" by (auto simp: mod_eq_0_iff_dvd)
  then have "y - 1900 = 100 * (4 * q - 3)" by simp
  then show ?thesis by simp
qed

lemma DayFromYear_step:
  "DayFromYear y + 365 \<le> DayFromYear (y + 1) \<and> DayFromYear (y + 1) \<le> DayFromYear y + 366"
proof -
  have a: "(y + 1 - 1969) div 4 =
      (if (y - 1968) mod 4 = 0 then (y - 1969) div 4 + 1 else (y - 1969) div 4)"
    using div_succ [of 4 "y - 1969"] by (simp add: algebra_simps)
  have b: "(y + 1 - 1901) div 100 =
      (if (y - 1900) mod 100 = 0 then (y - 1901) div 100 + 1 else (y - 1901) div 100)"
    using div_succ [of 100 "y - 1901"] by (simp add: algebra_simps)
  have c: "(y + 1 - 1601) div 400 =
      (if (y - 1600) mod 400 = 0 then (y - 1601) div 400 + 1 else (y - 1601) div 400)"
    using div_succ [of 400 "y - 1601"] by (simp add: algebra_simps)
  show ?thesis
    unfolding DayFromYear_def a b c using leap_100_4 [of y] leap_400_100 [of y] by auto
qed

function year_upto :: "int \<Rightarrow> int \<Rightarrow> int" where
  "year_upto d y = (if DayFromYear (y + 1) \<le> d then year_upto d (y + 1) else y)"
  by pat_completeness auto
termination
proof (relation "measure (\<lambda>(d, y). nat (d - DayFromYear y))")
  show "wf (measure (\<lambda>(d, y). nat (d - DayFromYear y)))" by simp
next
  fix d y :: int
  assume "DayFromYear (y + 1) \<le> d"
  then show "((d, y + 1), (d, y)) \<in> measure (\<lambda>(d, y). nat (d - DayFromYear y))"
    using DayFromYear_step [of y] by simp
qed

definition YearFromTime :: "int \<Rightarrow> int" where
  "YearFromTime t =
     (let d = Day t in year_upto d (1970 + (if 0 \<le> d then d div 366 else d div 365)))"

definition DayWithinYear :: "int \<Rightarrow> int" where
  "DayWithinYear t = Day t - DayFromYear (YearFromTime t)"

definition leap_days :: "int \<Rightarrow> int" where
  "leap_days y = (if InLeapYear y then 1 else 0)"

definition MonthFromTime :: "int \<Rightarrow> int" where
  "MonthFromTime t =
     (let d = DayWithinYear t; l = leap_days (YearFromTime t) in
      if d < 31 then 0
      else if d < 59 + l then 1
      else if d < 90 + l then 2
      else if d < 120 + l then 3
      else if d < 151 + l then 4
      else if d < 181 + l then 5
      else if d < 212 + l then 6
      else if d < 243 + l then 7
      else if d < 273 + l then 8
      else if d < 304 + l then 9
      else if d < 334 + l then 10
      else 11)"

definition days_before_month :: "int \<Rightarrow> int \<Rightarrow> int" where
  "days_before_month l m =
     (if m = 0 then 0
      else if m = 1 then 31
      else if m = 2 then 59 + l
      else if m = 3 then 90 + l
      else if m = 4 then 120 + l
      else if m = 5 then 151 + l
      else if m = 6 then 181 + l
      else if m = 7 then 212 + l
      else if m = 8 then 243 + l
      else if m = 9 then 273 + l
      else if m = 10 then 304 + l
      else 334 + l)"

definition DateFromTime :: "int \<Rightarrow> int" where
  "DateFromTime t =
     DayWithinYear t - days_before_month (leap_days (YearFromTime t)) (MonthFromTime t) + 1"

definition HourFromTime :: "int \<Rightarrow> int" where
  "HourFromTime t = (t div 3600000) mod 24"

definition MinFromTime :: "int \<Rightarrow> int" where
  "MinFromTime t = (t div 60000) mod 60"

definition SecFromTime :: "int \<Rightarrow> int" where
  "SecFromTime t = (t div 1000) mod 60"

definition msFromTime :: "int \<Rightarrow> int" where
  "msFromTime t = t mod 1000"

text \<open>
  Putting a time value together. Months beyond December carry into the year, and days
  beyond the end of the month into the next months. A time value further than
  8,640,000,000,000,000 ms from the epoch is invalid.
\<close>

definition MakeTime :: "int \<Rightarrow> int \<Rightarrow> int \<Rightarrow> int \<Rightarrow> int" where
  "MakeTime h m s milli = h * 3600000 + m * 60000 + s * 1000 + milli"

definition MakeDay :: "int \<Rightarrow> int \<Rightarrow> int \<Rightarrow> int" where
  "MakeDay y m dt =
     (let ym = y + m div 12; mn = m mod 12 in
      DayFromYear ym + days_before_month (leap_days ym) mn + dt - 1)"

definition MakeDate :: "int \<Rightarrow> int \<Rightarrow> int" where
  "MakeDate day time = day * msPerDay + time"

definition TimeClip :: "int \<Rightarrow> jsdate" where
  "TimeClip t = (if \<bar>t\<bar> \<le> 8640000000000000 then Some t else None)"

definition LocalTime :: "int \<Rightarrow> int \<Rightarrow> int" where
  "LocalTime tza t = t + tza"

definition UTC :: "int \<Rightarrow> int \<Rightarrow> int" where
  "UTC tza t = t - tza"

text \<open>
  \<^verbatim>\<open>new Date(y, m, dt, h, mi, s, milli)\<close>, in local time; a year from 0 to 99 stands
  for 1900 to 1999.
\<close>

definition new_Date_local :: "int \<Rightarrow> int \<Rightarrow> int \<Rightarrow> int \<Rightarrow> int \<Rightarrow> int \<Rightarrow> int \<Rightarrow> int \<Rightarrow> jsdate" where
  "new_Date_local tza y m dt h mi s milli =
     (let yr = (if 0 \<le> y \<and> y \<le> 99 then 1900 + y else y) in
      TimeClip (UTC tza (MakeDate (MakeDay yr m dt) (MakeTime h mi s milli))))"

text \<open>
  \<^verbatim>\<open>setMonth(m, dt)\<close>, \<^verbatim>\<open>setHours(h, mi, s, milli)\<close> and
  \<^verbatim>\<open>setFullYear(y, m, dt)\<close>, each returning the date as it is afterwards. They work on
  the local time and keep what they do not set. An invalid date stays invalid under the
  first two; \<^verbatim>\<open>setFullYear\<close> starts from the time value 0 instead.
\<close>

definition setMonth :: "int \<Rightarrow> int \<Rightarrow> int \<Rightarrow> jsdate \<Rightarrow> jsdate" where
  "setMonth tza m dt d =
     (case d of
        None \<Rightarrow> None
      | Some t0 \<Rightarrow>
          (let t = LocalTime tza t0 in
           TimeClip (UTC tza (MakeDate (MakeDay (YearFromTime t) m dt) (TimeWithinDay t)))))"

definition setHours :: "int \<Rightarrow> int \<Rightarrow> int \<Rightarrow> int \<Rightarrow> int \<Rightarrow> jsdate \<Rightarrow> jsdate" where
  "setHours tza h mi s milli d =
     (case d of
        None \<Rightarrow> None
      | Some t0 \<Rightarrow>
          (let t = LocalTime tza t0 in
           TimeClip (UTC tza (MakeDate (Day t) (MakeTime h mi s milli)))))"

definition setFullYear :: "int \<Rightarrow> int \<Rightarrow> int \<Rightarrow> int \<Rightarrow> jsdate \<Rightarrow> jsdate" where
  "setFullYear tza y m dt d =
     (let t = (case d of None \<Rightarrow> 0 | Some t0 \<Rightarrow> LocalTime tza t0) in
      TimeClip (UTC tza (MakeDate (MakeDay y m dt) (TimeWithinDay t))))"

text \<open>
  \<^verbatim>\<open>toISOString()\<close>: the UTC date and time as \<^verbatim>\<open>YYYY-MM-DDTHH:mm:ss.sssZ\<close>, with a
  sign and six digits for a year outside 0 to 9999. It throws for an invalid date.
\<close>

definition digit :: "int \<Rightarrow> char" where
  "digit k = ''0123456789'' ! nat (k mod 10)"

definition dec2 :: "int \<Rightarrow> string" where
  "dec2 k = [digit (k div 10), digit k]"

definition dec3 :: "int \<Rightarrow> string" where
  "dec3 k = [digit (k div 100), digit (k div 10), digit k]"

definition dec4 :: "int \<Rightarrow> string" where
  "dec4 k = [digit (k div 1000), digit (k div 100), digit (k div 10), digit k]"

definition dec6 :: "int \<Rightarrow> string" where
  "dec6 k = [digit (k div 100000), digit (k div 10000), digit (k div 1000),
             digit (k div 100), digit (k div 10), digit k]"

text \<open>What \<^verbatim>\<open>getOrders\<close> and the point updates can throw.\<close>

datatype js_error =
  Error_Invalid_date
  | RangeError_Invalid_time_value
  | SqliteError sqlerror

definition iso_string :: "int \<Rightarrow> string" where
  "iso_string t =
     (let y = YearFromTime t in
      (if 0 \<le> y \<and> y \<le> 9999 then dec4 y
       else (if y < 0 then ''-'' else ''+'') @ dec6 \<bar>y\<bar>)
      @ ''-'' @ dec2 (MonthFromTime t + 1)
      @ ''-'' @ dec2 (DateFromTime t)
      @ ''T'' @ dec2 (HourFromTime t)
      @ '':'' @ dec2 (MinFromTime t)
      @ '':'' @ dec2 (SecFromTime t)
      @ ''.'' @ dec3 (msFromTime t) @ ''Z'')"

definition toISOString :: "jsdate \<Rightarrow> js_error + string" where
  "toISOString d =
     (case d of
        None \<Rightarrow> Inl RangeError_Invalid_time_value
      | Some t \<Rightarrow> Inr (iso_string t))"

section \<open>SQL expressions on cells\<close>

text \<open>
  Comparison as SQLite does it: NULL compares to nothing, a number is below every text,
  numbers compare by value and texts byte by byte. The functions say when the SQL
  comparison is true; where it is false or NULL they are \<open>False\<close>. The \<^verbatim>\<open>WHERE\<close>
  clause of \<^verbatim>\<open>getOrders\<close> has no negation, so a row is kept exactly when
  the clause is true in this reading.
\<close>

fun text_lt :: "string \<Rightarrow> string \<Rightarrow> bool" where
  "text_lt [] [] = False"
| "text_lt [] (y # ys) = True"
| "text_lt (x # xs) [] = False"
| "text_lt (x # xs) (y # ys) =
     (if x = y then text_lt xs ys else (of_char x :: nat) < of_char y)"

fun sql_lt :: "sqlval \<Rightarrow> sqlval \<Rightarrow> bool" where
  "sql_lt (SNum a) (SNum b) = (a < b)"
| "sql_lt (SNum a) (SText b) = True"
| "sql_lt (SText a) (SText b) = text_lt a b"
| "sql_lt _ _ = False"

fun sql_eq :: "sqlval \<Rightarrow> sqlval \<Rightarrow> bool" where
  "sql_eq (SNum a) (SNum b) = (a = b)"
| "sql_eq (SText a) (SText b) = (a = b)"
| "sql_eq _ _ = False"

definition sql_le :: "sqlval \<Rightarrow> sqlval \<Rightarrow> bool" where
  "sql_le a b = (sql_lt a b \<or> sql_eq a b)"

definition sql_ge :: "sqlval \<Rightarrow> sqlval \<Rightarrow> bool" where
  "sql_ge a b = (sql_lt b a \<or> sql_eq a b)"

definition sql_ne :: "sqlval \<Rightarrow> sqlval \<Rightarrow> bool" where
  "sql_ne a b = (sql_lt a b \<or> sql_lt b a)"

text \<open>
  \<^verbatim>\<open>LIKE\<close>: \<^verbatim>\<open>%\<close> stands for any run of characters, \<^verbatim>\<open>_\<close> for any one character, and
  letters A to Z match in either case. The columns it is applied to are declared TEXT, so
  SQLite keeps what is bound to them as NULL or text; a number there is outside the model
  and matches nothing.
\<close>

definition to_lower :: "char \<Rightarrow> char" where
  "to_lower c =
     (case map_of (zip ''ABCDEFGHIJKLMNOPQRSTUVWXYZ'' ''abcdefghijklmnopqrstuvwxyz'') c of
        Some l \<Rightarrow> l
      | None \<Rightarrow> c)"

fun like :: "string \<Rightarrow> string \<Rightarrow> bool" where
  "like [] [] = True"
| "like [] (c # t) = False"
| "like (p # ps) [] = (p = CHR ''%'' \<and> like ps [])"
| "like (p # ps) (c # t) =
     (if p = CHR ''%'' then like ps (c # t) \<or> like (p # ps) t
      else (p = CHR ''_'' \<or> to_lower p = to_lower c) \<and> like ps t)"

definition sql_like :: "string \<Rightarrow> sqlval \<Rightarrow> bool" where
  "sql_like pattern v = (case v of SText s \<Rightarrow> like pattern s | _ \<Rightarrow> False)"

text \<open>
  \<^verbatim>\<open>etv * COALESCE(etvFactor, 0)\<close>. Both columns are declared REAL and every write of
  the program binds a number or null to them; a text there, which SQLite would cast from
  its numeric prefix, is read as 0.
\<close>

definition coalesce :: "sqlval \<Rightarrow> sqlval \<Rightarrow> sqlval" where
  "coalesce a b = (if a = SNull then b else a)"

fun sql_mul :: "sqlval \<Rightarrow> sqlval \<Rightarrow> sqlval" where
  "sql_mul SNull _ = SNull"
| "sql_mul _ SNull = SNull"
| "sql_mul (SNum a) (SNum b) = SNum (a * b)"
| "sql_mul _ _ = SNum 0"

definition adjustedEtv :: "row \<Rightarrow> sqlval" where
  "adjustedEtv r = sql_mul (col r ''etv'') (coalesce (col r ''etvFactor'') (SNum 0))"

text \<open>
  \<^verbatim>\<open>ORDER BY\<close>: NULLs first, then numbers, then texts. SQLite leaves the order of rows
  with equal keys open; the model sorts by insertion, and the properties below that
  depend on the order say so.
\<close>

fun sort_le :: "sqlval \<Rightarrow> sqlval \<Rightarrow> bool" where
  "sort_le SNull _ = True"
| "sort_le (SNum a) SNull = False"
| "sort_le (SNum a) (SNum b) = (a \<le> b)"
| "sort_le (SNum a) (SText b) = True"
| "sort_le (SText a) (SText b) = (\<not> text_lt b a)"
| "sort_le (SText a) _ = False"

fun insort_by :: "('a \<Rightarrow> 'a \<Rightarrow> bool) \<Rightarrow> 'a \<Rightarrow> 'a list \<Rightarrow> 'a list" where
  "insort_by le x [] = [x]"
| "insort_by le x (y # ys) = (if le x y then x # y # ys else y # insort_by le x ys)"

definition order_by :: "(row \<Rightarrow> sqlval) \<Rightarrow> bool \<Rightarrow> row list \<Rightarrow> row list" where
  "order_by key asc rs =
     foldr (insort_by (\<lambda>a b. if asc then sort_le (key a) (key b)
                              else sort_le (key b) (key a))) rs []"

text \<open>
  \<^verbatim>\<open>LIMIT :limit OFFSET :offset\<close>: a negative limit is no limit, a negative offset is no offset.
\<close>

definition limit_offset :: "int option \<Rightarrow> int option \<Rightarrow> 'a list \<Rightarrow> 'a list" where
  "limit_offset lmt ofs xs =
     (let ys = (case ofs of None \<Rightarrow> xs | Some k \<Rightarrow> drop (nat k) xs) in
      case lmt of
        None \<Rightarrow> ys
      | Some n \<Rightarrow> if n < 0 then ys else take (nat n) ys)"

section \<open>The order query engine (index.js)\<close>

text \<open>
  The host: its time zone as a fixed offset from UTC in milliseconds, the current time,
  and \<^verbatim>\<open>Date.parse\<close> (whose result for a text is the host's business; \<open>None\<close> is NaN).
\<close>

record host =
  tza :: int
  now :: int
  parse :: "string \<Rightarrow> jsdate"

text \<open>
  The options after the defaults of the parameter list have been applied. An option that
  is \<^verbatim>\<open>undefined\<close> is \<open>None\<close>; a \<^verbatim>\<open>year\<close> that is NaN (as \<^verbatim>\<open>parseInt\<close> of the
  callers can give) is \<open>None\<close> as well, both being falsy. \<^verbatim>\<open>limit\<close>, \<^verbatim>\<open>offset\<close> and
  \<^verbatim>\<open>year\<close> are whole numbers, as \<^verbatim>\<open>safeParseInt\<close> and \<^verbatim>\<open>parseInt\<close> of the callers
  produce them. The field \<open>sort_opt\<close> is the option \<^verbatim>\<open>sort\<close>.
\<close>

record GetOrdersOptions =
  cancelled :: bool
  nonAdjustedOnly :: bool
  limit :: "int option"
  offset :: "int option"
  search :: "string option"
  year :: "int option"
  countOnly :: bool
  sort_opt :: "string option"
  dir :: "string option"
  byDelivered :: bool

text \<open>
  An \<^verbatim>\<open>Order\<close> as \<^verbatim>\<open>toOrder\<close> builds it. A field that is null or undefined is \<open>None\<close>;
  the two dates are always \<^verbatim>\<open>Date\<close> objects, whose time value is \<open>None\<close> when the
  date is invalid. The field \<open>isCancelled\<close> is the property \<^verbatim>\<open>cancelled\<close>.
\<close>

record Order =
  number :: "string option"
  asin :: "string option"
  product :: "string option"
  orderedAt :: jsdate
  deliveredAt :: jsdate
  etv :: "real option"
  etvFactor :: "real option"
  isCancelled :: bool
  etvReason :: "string option"

datatype result = Rows "Order list" | Count int

subsection \<open>The year bound\<close>

definition year_bounds :: "host \<Rightarrow> int \<Rightarrow> js_error + (string \<times> string)" where
  "year_bounds h y =
     (let dt = new_Date_local (tza h) y 0 1 0 0 0 0 in
      case toISOString dt of
        Inl e \<Rightarrow> Inl e
      | Inr startDate \<Rightarrow>
          (let dt' = setHours (tza h) 11 59 59 999 (setMonth (tza h) 11 31 dt) in
           case toISOString dt' of
             Inl e \<Rightarrow> Inl e
           | Inr endDate \<Rightarrow> Inr (startDate, endDate)))"

subsection \<open>The search text\<close>

definition is_digit :: "char \<Rightarrow> bool" where
  "is_digit c = (c \<in> set ''0123456789'')"

text \<open>The test \<^verbatim>\<open>/^\d{4}-\d{2}-\d{2}$/\<close>.\<close>

definition date_pattern :: "string \<Rightarrow> bool" where
  "date_pattern s =
     (length s = 10 \<and> list_all is_digit (take 4 s) \<and> s ! 4 = CHR ''-'' \<and>
      list_all is_digit (take 2 (drop 5 s)) \<and> s ! 7 = CHR ''-'' \<and>
      list_all is_digit (drop 8 s))"

fun str_split :: "char \<Rightarrow> string \<Rightarrow> string list" where
  "str_split c [] = [[]]"
| "str_split c (x # xs) =
     (if x = c then [] # str_split c xs
      else (case str_split c xs of
              [] \<Rightarrow> [[x]]
            | p # ps \<Rightarrow> (x # p) # ps))"

definition nth_opt :: "'a list \<Rightarrow> nat \<Rightarrow> 'a option" where
  "nth_opt xs i = (if i < length xs then Some (xs ! i) else None)"

definition is_space :: "char \<Rightarrow> bool" where
  "is_space c = (c \<in> set [CHR 0x09, CHR 0x0A, CHR 0x0B, CHR 0x0C, CHR 0x0D, CHR '' ''])"

definition digit_val :: "char \<Rightarrow> int" where
  "digit_val c = int (length (takeWhile (\<lambda>d. d \<noteq> c) ''0123456789''))"

text \<open>
  \<^verbatim>\<open>parseInt(value, 10)\<close>: leading white space, a sign, then the digits up to the first
  other character; NaN (\<open>None\<close>) when there is no digit.
\<close>

definition parseInt :: "string \<Rightarrow> int option" where
  "parseInt s =
     (let s1 = dropWhile is_space s;
          neg = (s1 \<noteq> [] \<and> hd s1 = CHR ''-'');
          s2 = (if s1 \<noteq> [] \<and> (hd s1 = CHR ''-'' \<or> hd s1 = CHR ''+'') then tl s1 else s1);
          ds = takeWhile is_digit s2
      in if ds = [] then None
         else Some ((if neg then - 1 else 1) * foldl (\<lambda>a c. 10 * a + digit_val c) 0 ds))"

definition safeParseInt :: "string option \<Rightarrow> int option" where
  "safeParseInt v =
     (case v of
        None \<Rightarrow> None
      | Some s \<Rightarrow> if s = [] then None else parseInt s)"

definition search_bounds :: "host \<Rightarrow> string \<Rightarrow> js_error + (string \<times> string)" where
  "search_bounds h s =
     (let parts = str_split CHR ''-'' s in
      case (safeParseInt (nth_opt parts 0), safeParseInt (nth_opt parts 1),
            safeParseInt (nth_opt parts 2)) of
        (Some y, Some m, Some d) \<Rightarrow>
          if y = 0 \<or> m = 0 \<or> d = 0 then Inl Error_Invalid_date
          else
            (let dt = setHours (tza h) 0 0 0 0
                        (setFullYear (tza h) y (m - 1) d (Some (now h))) in
             case toISOString dt of
               Inl e \<Rightarrow> Inl e
             | Inr startDate \<Rightarrow>
                 (case toISOString (setHours (tza h) 23 59 59 999 dt) of
                    Inl e \<Rightarrow> Inl e
                  | Inr endDate \<Rightarrow> Inr (startDate, endDate)))
      | _ \<Rightarrow> Inl Error_Invalid_date)"

subsection \<open>From the options to the query\<close>

text \<open>
  The first part of \<^verbatim>\<open>getOrders\<close>: the keyword and the date bounds. The year is
  looked at first and may throw; a search text that has the shape of a date then
  overwrites both bounds, any other search text becomes the keyword.
\<close>

definition filter_inputs ::
  "host \<Rightarrow> GetOrdersOptions \<Rightarrow> js_error + (string option \<times> (string \<times> string) option)" where
  "filter_inputs h opts =
     (case (case year opts of
              None \<Rightarrow> Inr None
            | Some y \<Rightarrow> if y = 0 then Inr None else map_sum id Some (year_bounds h y)) of
        Inl e \<Rightarrow> Inl e
      | Inr yb \<Rightarrow>
          (case search opts of
             None \<Rightarrow> Inr (None, yb)
           | Some s \<Rightarrow>
               if s = [] then Inr (None, yb)
               else if date_pattern s then map_sum id (\<lambda>b. (None, Some b)) (search_bounds h s)
               else Inr (Some (''%'' @ s @ ''%''), yb)))"

definition date_column :: "GetOrdersOptions \<Rightarrow> string" where
  "date_column opts = (if byDelivered opts then ''deliveredAt'' else ''orderedAt'')"

definition sortCol :: "GetOrdersOptions \<Rightarrow> string" where
  "sortCol opts =
     (case sort_opt opts of
        None \<Rightarrow> ''orderedAt''
      | Some s \<Rightarrow>
          if \<not> countOnly opts \<and> s \<noteq> [] \<and> s \<in> set [''etv'', ''etvFactor'', ''adjustedEtv'']
          then s else ''orderedAt'')"

definition sortAsc :: "GetOrdersOptions \<Rightarrow> bool" where
  "sortAsc opts = (if countOnly opts then True else dir opts = Some ''asc'')"

definition sort_key :: "string \<Rightarrow> row \<Rightarrow> sqlval" where
  "sort_key c r = (if c = ''adjustedEtv'' then adjustedEtv r else col r c)"

text \<open>
  The \<^verbatim>\<open>WHERE\<close> clause as the template string assembles it: the test of
  \<^verbatim>\<open>cancelled\<close>, then one fragment for the keyword, one for the date bounds (both
  bounds are set or neither is) and one for \<^verbatim>\<open>nonAdjustedOnly\<close>, joined by
  \<^verbatim>\<open>AND\<close>.
\<close>

definition cancelled_clause :: "GetOrdersOptions \<Rightarrow> row \<Rightarrow> bool" where
  "cancelled_clause opts r =
     sql_eq (col r ''cancelled'') (SNum (if cancelled opts then 1 else 0))"

definition keyword_clause :: "string option \<Rightarrow> row \<Rightarrow> bool" where
  "keyword_clause keyword r =
     (case keyword of
        None \<Rightarrow> True
      | Some k \<Rightarrow>
          sql_like k (col r ''number'') \<or> sql_like k (col r ''asin'') \<or>
          sql_like k (col r ''product''))"

definition date_clause :: "GetOrdersOptions \<Rightarrow> (string \<times> string) option \<Rightarrow> row \<Rightarrow> bool" where
  "date_clause opts bounds r =
     (case bounds of
        None \<Rightarrow> True
      | Some (startDate, endDate) \<Rightarrow>
          sql_ge (col r (date_column opts)) (SText startDate) \<and>
          sql_le (col r (date_column opts)) (SText endDate))"

definition nonAdjusted_clause :: "GetOrdersOptions \<Rightarrow> row \<Rightarrow> bool" where
  "nonAdjusted_clause opts r =
     (if nonAdjustedOnly opts
      then sql_ne (col r ''etv'') (SNum 0) \<and>
           (col r ''etvFactor'' = SNull \<or>
            (col r ''etvFactor'' \<noteq> SNull \<and> sql_ne (col r ''etvFactor'') (SNum (2 / 10)) \<and>
             sql_ne (col r ''etvFactor'') (SNum 1) \<and> col r ''etvReason'' = SNull))
      else True)"

definition where_clause ::
  "GetOrdersOptions \<Rightarrow> string option \<Rightarrow> (string \<times> string) option \<Rightarrow> row \<Rightarrow> bool" where
  "where_clause opts keyword bounds r =
     (cancelled_clause opts r \<and> keyword_clause keyword r \<and> date_clause opts bounds r \<and>
      nonAdjusted_clause opts r)"

text \<open>
  \<^verbatim>\<open>db.prepare\<close>. SQLite has no \<^verbatim>\<open>OFFSET\<close> without a \<^verbatim>\<open>LIMIT\<close>, so the text with
  only \<^verbatim>\<open>OFFSET :offset\<close> appended does not parse; and every column the text names must
  be a column of the table (\<^verbatim>\<open>adjustedEtv\<close> in \<^verbatim>\<open>ORDER BY\<close> is the alias of the
  result column).
\<close>

definition referenced_columns ::
  "GetOrdersOptions \<Rightarrow> string option \<Rightarrow> (string \<times> string) option \<Rightarrow> string list" where
  "referenced_columns opts keyword bounds =
     (if countOnly opts then [] else [''etv'', ''etvFactor'']) @
     [''cancelled''] @
     (if keyword \<noteq> None then [''number'', ''asin'', ''product''] else []) @
     (if bounds \<noteq> None then [date_column opts] else []) @
     (if nonAdjustedOnly opts then [''etv'', ''etvFactor'', ''etvReason''] else []) @
     (if sortCol opts = ''adjustedEtv'' then [] else [sortCol opts])"

definition prepare ::
  "table \<Rightarrow> GetOrdersOptions \<Rightarrow> string option \<Rightarrow> (string \<times> string) option \<Rightarrow> sqlerror option" where
  "prepare t opts keyword bounds =
     (if offset opts \<noteq> None \<and> limit opts = None then Some SyntaxError
      else (case filter (\<lambda>c. c \<notin> set (cols t)) (referenced_columns opts keyword bounds) of
              [] \<Rightarrow> None
            | c # _ \<Rightarrow> Some (NoSuchColumn c)))"

subsection \<open>From rows to orders\<close>

text \<open>
  The object \<^verbatim>\<open>query.all\<close> returns for a row of \<^verbatim>\<open>SELECT *, ... AS adjustedEtv\<close>: one
  property for each column of the table, then \<^verbatim>\<open>adjustedEtv\<close>.
\<close>

definition select_row :: "string list \<Rightarrow> row \<Rightarrow> row" where
  "select_row cs r = map (\<lambda>c. (c, col r c)) cs @ [(''adjustedEtv'', adjustedEtv r)]"

text \<open>
  \<^verbatim>\<open>new Date(v)\<close> for a property \<open>v\<close> of such an object: \<^verbatim>\<open>undefined\<close> gives an invalid
  date, \<^verbatim>\<open>null\<close> converts to the number 0, a number is truncated and clipped, a text is
  parsed by the host.
\<close>

definition truncate :: "real \<Rightarrow> int" where
  "truncate x = (if 0 \<le> x then \<lfloor>x\<rfloor> else \<lceil>x\<rceil>)"

definition new_Date :: "host \<Rightarrow> sqlval option \<Rightarrow> jsdate" where
  "new_Date h v =
     (case v of
        None \<Rightarrow> None
      | Some SNull \<Rightarrow> TimeClip 0
      | Some (SNum x) \<Rightarrow> TimeClip (truncate x)
      | Some (SText s) \<Rightarrow> parse h s)"

text \<open>
  The other properties are copied as they are. The program binds texts to the TEXT columns
  and numbers to \<^verbatim>\<open>etv\<close> and \<^verbatim>\<open>etvFactor\<close>, or null; a cell of the other kind is read
  as absent.
\<close>

definition text_of :: "sqlval option \<Rightarrow> string option" where
  "text_of v = (case v of Some (SText s) \<Rightarrow> Some s | _ \<Rightarrow> None)"

definition num_of :: "sqlval option \<Rightarrow> real option" where
  "num_of v = (case v of Some (SNum x) \<Rightarrow> Some x | _ \<Rightarrow> None)"

definition toOrder :: "host \<Rightarrow> row \<Rightarrow> Order" where
  "toOrder h obj =
     \<lparr>number = text_of (map_of obj ''number''),
      asin = text_of (map_of obj ''asin''),
      product = text_of (map_of obj ''product''),
      orderedAt = new_Date h (map_of obj ''orderedAt''),
      deliveredAt = new_Date h (map_of obj ''deliveredAt''),
      etv = num_of (map_of obj ''etv''),
      etvFactor = num_of (map_of obj ''etvFactor''),
      isCancelled = (map_of obj ''cancelled'' = Some (SNum 1)),
      etvReason = text_of (map_of obj ''etvReason'')\<rparr>"

subsection \<open>getOrders\<close>

definition matching_rows ::
  "table \<Rightarrow> GetOrdersOptions \<Rightarrow> string option \<Rightarrow> (string \<times> string) option \<Rightarrow> row list" where
  "matching_rows t opts keyword bounds = filter (where_clause opts keyword bounds) (rows t)"

definition getOrders :: "host \<Rightarrow> table \<Rightarrow> GetOrdersOptions \<Rightarrow> js_error + result" where
  "getOrders h t opts =
     (case filter_inputs h opts of
        Inl e \<Rightarrow> Inl e
      | Inr (keyword, bounds) \<Rightarrow>
          (case prepare t opts keyword bounds of
             Some e \<Rightarrow> Inl (SqliteError e)
           | None \<Rightarrow>
               if countOnly opts then
                 (case limit_offset (limit opts) (offset opts)
                         [int (length (matching_rows t opts keyword bounds))] of
                    [] \<Rightarrow> Inr (Count 0)
                  | row_count # _ \<Rightarrow> Inr (Count row_count))
               else
                 Inr (Rows (map (toOrder h)
                   (map (select_row (cols t))
                     (limit_offset (limit opts) (offset opts)
                       (order_by (sort_key (sortCol opts)) (sortAsc opts)
                         (matching_rows t opts keyword bounds))))))))"

section \<open>The monthly breakdown (index.js)\<close>

record MonthlyBreakdown =
  month :: int
  orderCount :: int
  totalEtv :: real
  totalAdjustedEtv :: real

text \<open>\<^verbatim>\<open>getMonth()\<close>: the month of the local time, NaN (\<open>None\<close>) for an invalid date.\<close>

definition getMonth :: "host \<Rightarrow> jsdate \<Rightarrow> int option" where
  "getMonth h d = (case d of None \<Rightarrow> None | Some t \<Rightarrow> Some (MonthFromTime (LocalTime (tza h) t)))"

text \<open>A null \<^verbatim>\<open>etv\<close> in arithmetic converts to the number 0.\<close>

definition js_number :: "real option \<Rightarrow> real" where
  "js_number v = (case v of None \<Rightarrow> 0 | Some x \<Rightarrow> x)"

definition adjusted_term :: "Order \<Rightarrow> real" where
  "adjusted_term x =
     (case etvFactor x of
        Some f \<Rightarrow> js_number (etv x) * f
      | None \<Rightarrow> js_number (etv x))"

definition month_bucket :: "host \<Rightarrow> Order list \<Rightarrow> int \<Rightarrow> MonthlyBreakdown" where
  "month_bucket h os m =
     (let ordersForMonth = filter (\<lambda>x. getMonth h (orderedAt x) = Some m) os in
      \<lparr>month = m + 1,
       orderCount = int (length ordersForMonth),
       totalEtv = foldl (\<lambda>sum x. sum + js_number (etv x)) 0 ordersForMonth,
       totalAdjustedEtv = foldl (\<lambda>sum x. sum + adjusted_term x) 0 ordersForMonth\<rparr>)"

function monthly_loop ::
  "host \<Rightarrow> Order list \<Rightarrow> int \<Rightarrow> MonthlyBreakdown list \<Rightarrow> MonthlyBreakdown list" where
  "monthly_loop h os m monthly =
     (if m < 12 then monthly_loop h os (m + 1) (monthly @ [month_bucket h os m]) else monthly)"
  by pat_completeness auto
termination
  by (relation "measure (\<lambda>(h, os, m, monthly). nat (12 - m))") auto

definition getMonthlyBreakdown :: "host \<Rightarrow> Order list \<Rightarrow> MonthlyBreakdown list" where
  "getMonthlyBreakdown h os = monthly_loop h os 0 []"

text \<open>
  For comparison, the derived value as the specification defines it,
  \<^verbatim>\<open>etv * (etvFactor ?? 0)\<close>; the code above does not use it.
\<close>

definition spec_adjustedEtv :: "Order \<Rightarrow> real" where
  "spec_adjustedEtv x = js_number (etv x) * (case etvFactor x of None \<Rightarrow> 0 | Some f \<Rightarrow> f)"

section \<open>Setting the reason of an adjustment (index.js)\<close>

fun set_col :: "string \<Rightarrow> sqlval \<Rightarrow> row \<Rightarrow> row" where
  "set_col c v [] = [(c, v)]"
| "set_col c v (kv # r) = (if fst kv = c then (c, v) # r else kv # set_col c v r)"

text \<open>
  \<^verbatim>\<open>UPDATE orders SET etvReason = ? WHERE number = ?\<close> with the reason and the order
  number bound; the empty reason is first replaced by null.
\<close>

definition setETVReasonForOrder :: "table \<Rightarrow> string \<Rightarrow> string option \<Rightarrow> js_error + table" where
  "setETVReasonForOrder t n reason =
     (let reason' = (if reason = Some [] then None else reason);
          v = (case reason' of None \<Rightarrow> SNull | Some s \<Rightarrow> SText s) in
      case filter (\<lambda>c. c \<notin> set (cols t)) [''etvReason'', ''number''] of
        c # _ \<Rightarrow> Inl (SqliteError (NoSuchColumn c))
      | [] \<Rightarrow>
          Inr (t\<lparr>rows := map (\<lambda>r. if sql_eq (col r ''number'') (SText n)
                                   then set_col ''etvReason'' v r else r) (rows t)\<rparr>))"

text \<open>
  The route \<^verbatim>\<open>POST /orders/:number/etv-reason\<close> for a body whose \<^verbatim>\<open>reason\<close> is a text:
  the status it answers with and the table afterwards.
\<close>

definition post_etv_reason :: "table \<Rightarrow> string \<Rightarrow> string \<Rightarrow> nat \<times> table" where
  "post_etv_reason t n reason =
     (if length reason > 255 then (400, t)
      else (case setETVReasonForOrder t n (Some reason) of
              Inl e \<Rightarrow> (500, t)
            | Inr t' \<Rightarrow> (200, t')))"

section \<open>Example values\<close>

text \<open>
  The database of the migration example: one row, order \<^verbatim>\<open>A1\<close>, with the old flag set,
  and a fresh marker (SQLite starts \<^verbatim>\<open>user_version\<close> at 0).
\<close>

definition orders_v1_example :: table where
  "orders_v1_example =
     \<lparr>cols = [''number'', ''cancelled''],
      rows = [[(''number'', SText ''A1''), (''cancelled'', SNum 1)]]\<rparr>"

definition db_v1_example :: db where
  "db_v1_example =
     \<lparr>live = \<lparr>user_version = 0, orders = Some orders_v1_example\<rparr>, snapshot = None\<rparr>"

definition db_v2_example :: db where
  "db_v2_example =
     \<lparr>live = \<lparr>user_version = 2,
              orders = Some \<lparr>cols = [''number'', ''cancelledAt''],
                             rows = [[(''number'', SText ''A1''), (''cancelledAt'', SNull)]]\<rparr>\<rparr>,
      snapshot = None\<rparr>"

definition no_fault :: "stmt \<Rightarrow> bool" where
  "no_fault s = False"


text \<open>
  A small order table with the columns of \<^verbatim>\<open>index.js\<close>: one order of 2023, one of
  June 2024 that was delivered and adjusted, one placed on the evening of 31 December 2024,
  and one cancelled order.
\<close>

definition order_row ::
  "string \<Rightarrow> string \<Rightarrow> string \<Rightarrow> string \<Rightarrow> sqlval \<Rightarrow> real \<Rightarrow> sqlval \<Rightarrow> real \<Rightarrow> row" where
  "order_row n a p oa da e ef c =
     [(''number'', SText n), (''asin'', SText a), (''product'', SText p),
      (''orderedAt'', SText oa), (''deliveredAt'', da), (''etv'', SNum e),
      (''etvFactor'', ef), (''cancelled'', SNum c), (''etvReason'', SNull),
      (''notes'', SNull)]"

definition row_111 :: row where
  "row_111 = order_row ''111'' ''B01'' ''Lamp'' ''2023-06-15T12:00:00.000Z'' SNull 10 SNull 0"

definition row_112 :: row where
  "row_112 = order_row ''112'' ''B02'' ''Desk'' ''2024-06-15T12:00:00.000Z''
               (SText ''2024-06-20T12:00:00.000Z'') 20 (SNum (2 / 10)) 0"

definition row_113 :: row where
  "row_113 = order_row ''113'' ''B03'' ''Chair'' ''2024-12-31T18:30:00.000Z'' SNull 30 SNull 0"

definition row_114 :: row where
  "row_114 = order_row ''114'' ''B04'' ''Desk lamp'' ''2024-03-01T08:00:00.000Z'' SNull 40 SNull 1"

definition orders_example :: table where
  "orders_example = \<lparr>cols = orders_columns, rows = [row_111, row_112, row_113, row_114]\<rparr>"

text \<open>A host in the UTC zone, with \<^verbatim>\<open>Date.parse\<close> given on the texts of the table.\<close>

definition parse_example :: "string \<Rightarrow> jsdate" where
  "parse_example =
     map_of [(''2023-06-15T12:00:00.000Z'', 1686830400000),
             (''2024-06-15T12:00:00.000Z'', 1718452800000),
             (''2024-06-20T12:00:00.000Z'', 1718884800000),
             (''2024-12-31T18:30:00.000Z'', 1735669800000),
             (''2024-03-01T08:00:00.000Z'', 1709280000000),
             (''1970-01-01T00:00:00.000Z'', 0)]"

definition host_utc :: host where
  "host_utc = \<lparr>tza = 0, now = 1761998400000, parse = parse_example\<rparr>"

text \<open>The options of a call \<^verbatim>\<open>getOrders({})\<close>.\<close>

definition default_options :: GetOrdersOptions where
  "default_options =
     \<lparr>cancelled = False, nonAdjustedOnly = False, limit = None, offset = None,
      search = None, year = None, countOnly = False, sort_opt = None, dir = None,
      byDelivered = False\<rparr>"

text \<open>
  Whether a stored row has a cancellation time: a column \<^verbatim>\<open>cancelledAt\<close> that is not
  NULL. This is the column \<^verbatim>\<open>migrate.js\<close> adds; it is used to state what the
  specification says of \<^verbatim>\<open>getOrders\<close>.
\<close>

definition cancelledAt_present :: "row \<Rightarrow> bool" where
  "cancelledAt_present r =
     (case map_of r ''cancelledAt'' of None \<Rightarrow> False | Some v \<Rightarrow> v \<noteq> SNull)"

text \<open>The example table after order 112 was given a reason.\<close>

definition orders_with_reason :: table where
  "orders_with_reason =
     \<lparr>cols = orders_columns,
      rows = [row_111, set_col ''etvReason'' (SText ''Brand name'') row_112, row_113, row_114]\<rparr>"

section \<open>Properties of the migrator\<close>

lemma map_of_filter_key:
  "map_of (filter (\<lambda>kv. fst kv \<noteq> c) r) k = (if k = c then None else map_of r k)"
  by (induction r) auto

lemma map_of_drop_column:
  "i < length (rows t) \<Longrightarrow>
   map_of (rows (drop_column c t) ! i) k = (if k = c then None else map_of (rows t ! i) k)"
  by (simp add: drop_column_def map_of_filter_key)

lemma map_of_add_column:
  "i < length (rows t) \<Longrightarrow>
   map_of (rows (add_column c t) ! i) k = (if k = c then Some SNull else map_of (rows t ! i) k)"
  by (auto simp: add_column_def map_of_filter_key map_add_def split: option.splits)

lemma length_rows_drop_column [simp]: "length (rows (drop_column c t)) = length (rows t)"
  by (simp add: drop_column_def)

lemma length_rows_add_column [simp]: "length (rows (add_column c t)) = length (rows t)"
  by (simp add: add_column_def)

lemma cols_drop_column [simp]: "cols (drop_column c t) = filter (\<lambda>k. k \<noteq> c) (cols t)"
  by (simp add: drop_column_def)

lemma cols_add_column [simp]: "cols (add_column c t) = cols t @ [c]"
  by (simp add: add_column_def)

text \<open>The five statements on a v1 database when nothing fails, state by state.\<close>

lemma exec_all_v1:
  assumes "snapshot d = None" "orders (live d) = Some t"
    "''cancelled'' \<in> set (cols t)" "''cancelledAt'' \<notin> set (cols t)"
    "\<forall>s. \<not> faulty s"
  shows "exec_all faulty migration_steps d =
    (None,
     \<lparr>live = \<lparr>user_version = 2,
              orders = Some (add_column ''cancelledAt'' (drop_column ''cancelled'' t))\<rparr>,
      snapshot = None\<rparr>,
     [d\<lparr>snapshot := Some (live d)\<rparr>,
      \<lparr>live = (live d)\<lparr>orders := Some (drop_column ''cancelled'' t)\<rparr>,
       snapshot = Some (live d)\<rparr>,
      \<lparr>live = (live d)\<lparr>orders :=
                Some (add_column ''cancelledAt'' (drop_column ''cancelled'' t))\<rparr>,
       snapshot = Some (live d)\<rparr>,
      \<lparr>live = \<lparr>user_version = 2,
               orders = Some (add_column ''cancelledAt'' (drop_column ''cancelled'' t))\<rparr>,
       snapshot = Some (live d)\<rparr>,
      \<lparr>live = \<lparr>user_version = 2,
               orders = Some (add_column ''cancelledAt'' (drop_column ''cancelled'' t))\<rparr>,
       snapshot = None\<rparr>])"
  using assms by (simp add: migration_steps_def exec_def)


text \<open>
  C7. On a v1 database (no transaction open, the table \<^verbatim>\<open>orders\<close> with a column
  \<^verbatim>\<open>cancelled\<close> and no column \<^verbatim>\<open>cancelledAt\<close>, the marker below 2), when no statement
  fails, \<^verbatim>\<open>migrate\<close> returns normally and logs the success; afterwards no transaction is
  open, the marker reads 2, the table has the old columns without \<^verbatim>\<open>cancelled\<close> followed
  by \<^verbatim>\<open>cancelledAt\<close>, it has the same number of rows, and in every row \<^verbatim>\<open>cancelledAt\<close>
  reads NULL, \<^verbatim>\<open>cancelled\<close> is gone and every other column reads what it read before.
  Every state on the way shows other readers either the old database or the migrated one.
  A database whose marker is 2 or more is returned as it is, and nothing is logged.
\<close>

theorem migrate_v1_to_v2:
  "(snapshot d = None \<and> orders (live d) = Some t \<and> ''cancelled'' \<in> set (cols t) \<and>
    ''cancelledAt'' \<notin> set (cols t) \<and> user_version (live d) < 2 \<and> (\<forall>s. \<not> faulty s)
    \<longrightarrow>
      thrown (migrate faulty d) = None \<and>
      logged (migrate faulty d) = [LogMigrating (user_version (live d)) 2, LogSchemaUpdated] \<and>
      snapshot (final (migrate faulty d)) = None \<and>
      user_version (live (final (migrate faulty d))) = 2 \<and>
      (\<exists>t'. orders (live (final (migrate faulty d))) = Some t' \<and>
         cols t' = filter (\<lambda>k. k \<noteq> ''cancelled'') (cols t) @ [''cancelledAt''] \<and>
         length (rows t') = length (rows t) \<and>
         (\<forall>i<length (rows t).
            map_of (rows t' ! i) ''cancelledAt'' = Some SNull \<and>
            map_of (rows t' ! i) ''cancelled'' = None \<and>
            (\<forall>c. c \<noteq> ''cancelled'' \<and> c \<noteq> ''cancelledAt'' \<longrightarrow>
               map_of (rows t' ! i) c = map_of (rows t ! i) c))) \<and>
      (\<forall>s\<in>set (visited (migrate faulty d)).
         committed s = live d \<or> committed s = live (final (migrate faulty d))))
   \<and> (2 \<le> user_version (live d) \<longrightarrow>
        migrate faulty d = \<lparr>final = d, logged = [], thrown = None, visited = []\<rparr>)"
proof (intro conjI impI)
  assume h: "snapshot d = None \<and> orders (live d) = Some t \<and> ''cancelled'' \<in> set (cols t) \<and>
    ''cancelledAt'' \<notin> set (cols t) \<and> user_version (live d) < 2 \<and> (\<forall>s. \<not> faulty s)"
  define t' where "t' = add_column ''cancelledAt'' (drop_column ''cancelled'' t)"
  from h have lt: "user_version (live d) < 2" by simp
  have m: "migrate faulty d =
    \<lparr>final = \<lparr>live = \<lparr>user_version = 2, orders = Some t'\<rparr>, snapshot = None\<rparr>,
     logged = [LogMigrating (user_version (live d)) 2, LogSchemaUpdated],
     thrown = None,
     visited = [d\<lparr>snapshot := Some (live d)\<rparr>,
      \<lparr>live = (live d)\<lparr>orders := Some (drop_column ''cancelled'' t)\<rparr>,
       snapshot = Some (live d)\<rparr>,
      \<lparr>live = (live d)\<lparr>orders := Some t'\<rparr>, snapshot = Some (live d)\<rparr>,
      \<lparr>live = \<lparr>user_version = 2, orders = Some t'\<rparr>, snapshot = Some (live d)\<rparr>,
      \<lparr>live = \<lparr>user_version = 2, orders = Some t'\<rparr>, snapshot = None\<rparr>]\<rparr>"
    using lt h by (simp add: migrate_def TARGET_VERSION_def exec_all_v1 t'_def)
  show "thrown (migrate faulty d) = None" by (simp add: m)
  show "logged (migrate faulty d) = [LogMigrating (user_version (live d)) 2, LogSchemaUpdated]"
    by (simp add: m)
  show "snapshot (final (migrate faulty d)) = None" by (simp add: m)
  show "user_version (live (final (migrate faulty d))) = 2" by (simp add: m)
  show "\<exists>t'. orders (live (final (migrate faulty d))) = Some t' \<and>
         cols t' = filter (\<lambda>k. k \<noteq> ''cancelled'') (cols t) @ [''cancelledAt''] \<and>
         length (rows t') = length (rows t) \<and>
         (\<forall>i<length (rows t).
            map_of (rows t' ! i) ''cancelledAt'' = Some SNull \<and>
            map_of (rows t' ! i) ''cancelled'' = None \<and>
            (\<forall>c. c \<noteq> ''cancelled'' \<and> c \<noteq> ''cancelledAt'' \<longrightarrow>
               map_of (rows t' ! i) c = map_of (rows t ! i) c))"
    by (simp add: m t'_def map_of_add_column map_of_drop_column)
  show "\<forall>s\<in>set (visited (migrate faulty d)).
         committed s = live d \<or> committed s = live (final (migrate faulty d))"
    by (simp add: m committed_def)
next
  assume "2 \<le> user_version (live d)"
  then show "migrate faulty d = \<lparr>final = d, logged = [], thrown = None, visited = []\<rparr>"
    by (simp add: migrate_def TARGET_VERSION_def)
qed

text \<open>
  The migration example of the specification, through the theorem: the v1 row
  \<^verbatim>\<open>{number: "A1", cancelled: 1}\<close> becomes \<^verbatim>\<open>{number: "A1", cancelledAt: null}\<close>, the
  marker reads 2, and the migrated database is not touched again.
\<close>

theorem migrate_v1_to_v2_witness:
  "(snapshot db_v1_example = None \<and> orders (live db_v1_example) = Some orders_v1_example \<and>
    ''cancelled'' \<in> set (cols orders_v1_example) \<and>
    ''cancelledAt'' \<notin> set (cols orders_v1_example) \<and>
    user_version (live db_v1_example) < 2 \<and> (\<forall>s. \<not> no_fault s)) \<and>
   final (migrate no_fault db_v1_example) = db_v2_example \<and>
   logged (migrate no_fault db_v1_example) = [LogMigrating 0 2, LogSchemaUpdated] \<and>
   2 \<le> user_version (live db_v2_example) \<and>
   migrate no_fault db_v2_example =
     \<lparr>final = db_v2_example, logged = [], thrown = None, visited = []\<rparr>"
proof -
  have h: "snapshot db_v1_example = None \<and>
    orders (live db_v1_example) = Some orders_v1_example \<and>
    ''cancelled'' \<in> set (cols orders_v1_example) \<and>
    ''cancelledAt'' \<notin> set (cols orders_v1_example) \<and>
    user_version (live db_v1_example) < 2 \<and> (\<forall>s. \<not> no_fault s)"
    by (simp add: db_v1_example_def orders_v1_example_def no_fault_def)
  have v2: "2 \<le> user_version (live db_v2_example)"
    by (simp add: db_v2_example_def)
  have ev: "final (migrate no_fault db_v1_example) = db_v2_example"
    by (simp add: migrate_def TARGET_VERSION_def migration_steps_def exec_def no_fault_def
        db_v1_example_def orders_v1_example_def db_v2_example_def drop_column_def
        add_column_def)
  from migrate_v1_to_v2 [of db_v1_example orders_v1_example no_fault] h
  have lg: "logged (migrate no_fault db_v1_example) = [LogMigrating 0 2, LogSchemaUpdated]"
    by (simp add: db_v1_example_def)
  from migrate_v1_to_v2 [of db_v2_example orders_v1_example no_fault] v2
  have un: "migrate no_fault db_v2_example =
     \<lparr>final = db_v2_example, logged = [], thrown = None, visited = []\<rparr>"
    by blast
  from h v2 ev lg un show ?thesis by blast
qed




section \<open>Properties of the dates\<close>

text \<open>
  \<open>YearFromTime\<close> is the year the standard asks for: the one whose first day is the last
  first day of a year not after the day of the time value.
\<close>

lemma DayFromYear_1970 [simp]: "DayFromYear 1970 = 0"
  by (simp add: DayFromYear_def)

lemma DayFromYear_add:
  "DayFromYear y + 365 * int k \<le> DayFromYear (y + int k) \<and>
   DayFromYear (y + int k) \<le> DayFromYear y + 366 * int k"
proof (induction k)
  case 0
  show ?case by simp
next
  case (Suc k)
  have e: "y + int (Suc k) = y + int k + 1" by simp
  have s: "DayFromYear (y + int k) + 365 \<le> DayFromYear (y + int k + 1)"
    "DayFromYear (y + int k + 1) \<le> DayFromYear (y + int k) + 366"
    using DayFromYear_step [of "y + int k"] by simp_all
  have i: "365 * int (Suc k) = 365 * int k + 365" "366 * int (Suc k) = 366 * int k + 366"
    by simp_all
  show ?case
    unfolding e i using s Suc by linarith
qed

lemma DayFromYear_strict_mono:
  assumes "y < y'"
  shows "DayFromYear y < DayFromYear y'"
proof -
  define k where "k = nat (y' - y)"
  from assms have k: "y' = y + int k" "0 < int k"
    by (simp_all add: k_def)
  from DayFromYear_add [of y k] have "DayFromYear y + 365 * int k \<le> DayFromYear y'"
    by (simp add: k(1))
  with k(2) show ?thesis by linarith
qed

lemma DayFromYear_mono: "y \<le> y' \<Longrightarrow> DayFromYear y \<le> DayFromYear y'"
  using DayFromYear_strict_mono [of y y'] by (cases "y = y'") auto

lemma year_guess:
  "DayFromYear (1970 + (if 0 \<le> d then d div 366 else d div 365)) \<le> d"
proof (cases "0 \<le> d")
  case True
  define k where "k = nat (d div 366)"
  from True have k: "int k = d div 366" by (simp add: k_def pos_imp_zdiv_nonneg_iff)
  have "DayFromYear (1970 + int k) \<le> 366 * int k"
    using DayFromYear_add [of 1970 k] by simp
  moreover have "366 * (d div 366) \<le> d" by simp
  ultimately show ?thesis using True k by simp
next
  case False
  define g where "g = d div 365"
  from False have g: "g < 0" by (simp add: g_def neg_imp_zdiv_neg_iff)
  define k where "k = nat (- g)"
  from g have k: "int k = - g" by (simp add: k_def)
  have "DayFromYear (1970 + g) + 365 * int k \<le> DayFromYear ((1970 + g) + int k)"
    using DayFromYear_add [of "1970 + g" k] by simp
  then have "DayFromYear (1970 + g) \<le> 365 * g" using k by simp
  moreover have "365 * g \<le> d" by (simp add: g_def)
  ultimately show ?thesis using False by (simp add: g_def)
qed

lemma year_upto_spec:
  "DayFromYear y \<le> d \<Longrightarrow>
   DayFromYear (year_upto d y) \<le> d \<and> d < DayFromYear (year_upto d y + 1)"
proof (induction d y rule: year_upto.induct)
  case (1 d y)
  show ?case
  proof (cases "DayFromYear (y + 1) \<le> d")
    case True
    with 1 show ?thesis by (subst (1 2) year_upto.simps) simp
  next
    case False
    with 1 show ?thesis by (subst (1 2) year_upto.simps) simp
  qed
qed

lemma YearFromTime_spec:
  "DayFromYear (YearFromTime t) \<le> Day t \<and> Day t < DayFromYear (YearFromTime t + 1)"
  unfolding YearFromTime_def Let_def by (rule year_upto_spec) (rule year_guess)

lemma YearFromTime_unique:
  assumes "DayFromYear y \<le> Day t" and "Day t < DayFromYear (y + 1)"
  shows "YearFromTime t = y"
proof (rule ccontr)
  assume ne: "YearFromTime t \<noteq> y"
  let ?r = "YearFromTime t"
  from YearFromTime_spec [of t] have r: "DayFromYear ?r \<le> Day t" "Day t < DayFromYear (?r + 1)"
    by simp_all
  show False
  proof (cases "?r < y")
    case True
    then have "DayFromYear (?r + 1) \<le> DayFromYear y" by (intro DayFromYear_mono) simp
    with r assms show False by simp
  next
    case False
    with ne have "y + 1 \<le> ?r" by simp
    then have "DayFromYear (y + 1) \<le> DayFromYear ?r" by (rule DayFromYear_mono)
    with r assms show False by simp
  qed
qed

lemma Day_MakeDate:
  assumes "0 \<le> tm" "tm < msPerDay"
  shows "Day (MakeDate dy tm) = dy" and "TimeWithinDay (MakeDate dy tm) = tm"
  using assms by (simp_all add: Day_def TimeWithinDay_def MakeDate_def msPerDay_def
      div_pos_pos_trivial)

lemma DayFromYear_bounds:
  assumes "0 \<le> y" "y \<le> 10100"
  shows "- 720000 \<le> DayFromYear y" and "DayFromYear y \<le> 2970000"
proof -
  have "DayFromYear 0 \<le> DayFromYear y" and "DayFromYear y \<le> DayFromYear 10100"
    using assms by (simp_all add: DayFromYear_mono)
  then show "- 720000 \<le> DayFromYear y" and "DayFromYear y \<le> 2970000"
    by (simp_all add: DayFromYear_def)
qed

lemma days_before_month_bounds:
  "0 \<le> l \<Longrightarrow> l \<le> 1 \<Longrightarrow> 0 \<le> days_before_month l m \<and> days_before_month l m \<le> 335"
  by (simp add: days_before_month_def)

lemma leap_days_bounds: "0 \<le> leap_days y \<and> leap_days y \<le> 1"
  by (simp add: leap_days_def)

lemma TimeClip_ok: "\<bar>t\<bar> \<le> 8640000000000000 \<Longrightarrow> TimeClip t = Some t"
  by (simp add: TimeClip_def)

text \<open>Setting the time of day on a valid date whose local day is known.\<close>

lemma setHours_local_day:
  assumes "0 \<le> tm" "tm < msPerDay"
    and "\<bar>dy * msPerDay + MakeTime h' mi s' milli - z\<bar> \<le> 8640000000000000"
  shows "setHours z h' mi s' milli (Some (UTC z (MakeDate dy tm))) =
         Some (UTC z (MakeDate dy (MakeTime h' mi s' milli)))"
proof -
  have l: "LocalTime z (UTC z (MakeDate dy tm)) = MakeDate dy tm"
    by (simp add: LocalTime_def UTC_def)
  have c: "TimeClip (UTC z (MakeDate dy (MakeTime h' mi s' milli))) =
      Some (UTC z (MakeDate dy (MakeTime h' mi s' milli)))"
    using assms(3) by (intro TimeClip_ok) (simp add: UTC_def MakeDate_def)
  show ?thesis
    by (simp add: setHours_def Let_def l Day_MakeDate(1) [OF assms(1,2)] c)
qed

lemma TimeWithinDay_range: "0 \<le> TimeWithinDay t \<and> TimeWithinDay t < msPerDay"
  by (simp add: TimeWithinDay_def msPerDay_def)

lemma MakeDay_bounds:
  assumes "1 \<le> y" "y \<le> 9999" "0 \<le> m" "m \<le> 98" "1 \<le> d" "d \<le> 99"
  shows "- 720000 \<le> MakeDay y m d" and "MakeDay y m d \<le> 2971000"
proof -
  have "0 \<le> m div 12" "m div 12 \<le> 8"
    using assms by simp_all
  then have ym: "0 \<le> y + m div 12" "y + m div 12 \<le> 10100"
    using assms by simp_all
  note b = DayFromYear_bounds [OF ym]
    days_before_month_bounds [OF leap_days_bounds [THEN conjunct1] leap_days_bounds [THEN conjunct2],
      of "y + m div 12" "m mod 12"]
  show "- 720000 \<le> MakeDay y m d" and "MakeDay y m d \<le> 2971000"
    using b assms(5,6) by (simp_all add: MakeDay_def Let_def)
qed

lemma search_day:
  assumes "\<bar>z\<bar> \<le> msPerDay" and "- 720000 \<le> dy" and "dy \<le> 2971000"
  shows "setHours z 0 0 0 0 (TimeClip (UTC z (MakeDate dy (TimeWithinDay t)))) =
           Some (UTC z (MakeDate dy (MakeTime 0 0 0 0)))"
    and "setHours z 23 59 59 999 (Some (UTC z (MakeDate dy (MakeTime 0 0 0 0)))) =
           Some (UTC z (MakeDate dy (MakeTime 23 59 59 999)))"
proof -
  have r: "0 \<le> TimeWithinDay t" "TimeWithinDay t < msPerDay"
    using TimeWithinDay_range [of t] by simp_all
  have v: "\<bar>UTC z (MakeDate dy (TimeWithinDay t))\<bar> \<le> 8640000000000000"
    using assms r by (simp add: UTC_def MakeDate_def msPerDay_def; linarith)
  have a: "\<bar>dy * msPerDay + MakeTime 0 0 0 0 - z\<bar> \<le> 8640000000000000"
    using assms by (simp add: MakeTime_def msPerDay_def; linarith)
  have b: "\<bar>dy * msPerDay + MakeTime 23 59 59 999 - z\<bar> \<le> 8640000000000000"
    using assms by (simp add: MakeTime_def msPerDay_def; linarith)
  show "setHours z 0 0 0 0 (TimeClip (UTC z (MakeDate dy (TimeWithinDay t)))) =
           Some (UTC z (MakeDate dy (MakeTime 0 0 0 0)))"
    unfolding TimeClip_ok [OF v] by (rule setHours_local_day [OF r a])
  have z: "(0::int) \<le> MakeTime 0 0 0 0" "MakeTime 0 0 0 0 < msPerDay"
    by (simp_all add: MakeTime_def msPerDay_def)
  show "setHours z 23 59 59 999 (Some (UTC z (MakeDate dy (MakeTime 0 0 0 0)))) =
           Some (UTC z (MakeDate dy (MakeTime 23 59 59 999)))"
    by (rule setHours_local_day [OF z b])
qed

lemma search_bounds_value:
  assumes "safeParseInt (nth_opt (str_split CHR ''-'' s) 0) = Some y"
    and "safeParseInt (nth_opt (str_split CHR ''-'' s) 1) = Some m"
    and "safeParseInt (nth_opt (str_split CHR ''-'' s) 2) = Some d"
    and "1 \<le> y" "y \<le> 9999" "1 \<le> m" "m \<le> 99" "1 \<le> d" "d \<le> 99"
    and "\<bar>tza h\<bar> \<le> msPerDay"
  shows "search_bounds h s =
     Inr (iso_string (UTC (tza h) (MakeDate (MakeDay y (m - 1) d) (MakeTime 0 0 0 0))),
          iso_string (UTC (tza h) (MakeDate (MakeDay y (m - 1) d) (MakeTime 23 59 59 999))))"
proof -
  have mb: "- 720000 \<le> MakeDay y (m - 1) d" "MakeDay y (m - 1) d \<le> 2971000"
    using MakeDay_bounds [of y "m - 1" d] assms by simp_all
  have sf: "setFullYear (tza h) y (m - 1) d (Some (now h)) =
      TimeClip (UTC (tza h) (MakeDate (MakeDay y (m - 1) d)
        (TimeWithinDay (LocalTime (tza h) (now h)))))"
    by (simp add: setFullYear_def Let_def)
  note sd = search_day(1) [OF assms(10) mb, of "LocalTime (tza h) (now h)"]
    search_day(2) [OF assms(10) mb]
  show ?thesis
    using assms(1-9)
    by (simp add: search_bounds_def Let_def sf sd toISOString_def)
qed


section \<open>Properties of the query engine\<close>

subsection \<open>Sorting and paging keep to the rows they are given\<close>

lemma mset_insort_by: "mset (insort_by le x ys) = add_mset x (mset ys)"
  by (induction ys) auto

lemma mset_order_by: "mset (order_by key asc rs) = mset rs"
  unfolding order_by_def by (induction rs) (auto simp: mset_insort_by)

lemma length_order_by: "length (order_by key asc rs) = length rs"
  using mset_order_by [of key asc rs] by (metis size_mset)

lemma set_order_by: "set (order_by key asc rs) = set rs"
  using mset_order_by [of key asc rs] by (metis set_mset_mset)

lemma set_limit_offset: "set (limit_offset lmt ofs xs) \<subseteq> set xs"
  by (auto simp: limit_offset_def Let_def split: option.splits dest: in_set_takeD in_set_dropD)

lemma limit_offset_None [simp]: "limit_offset None None xs = xs"
  by (simp add: limit_offset_def)

subsection \<open>Which options each part of the query reads\<close>

lemma filter_inputs_cancelled [simp]:
  "filter_inputs h (opts\<lparr>cancelled := c\<rparr>) = filter_inputs h opts"
  by (simp add: filter_inputs_def split: sum.splits option.splits)

lemma filter_inputs_countOnly [simp]:
  "filter_inputs h (opts\<lparr>countOnly := c\<rparr>) = filter_inputs h opts"
  by (simp add: filter_inputs_def split: sum.splits option.splits)

lemma filter_inputs_sort [simp]:
  "filter_inputs h (opts\<lparr>sort_opt := s\<rparr>) = filter_inputs h opts"
  "filter_inputs h (opts\<lparr>dir := d\<rparr>) = filter_inputs h opts"
  by (simp_all add: filter_inputs_def split: sum.splits option.splits)

lemma sortCol_cancelled [simp]: "sortCol (opts\<lparr>cancelled := c\<rparr>) = sortCol opts"
  by (simp add: sortCol_def split: option.splits)

lemma sortAsc_cancelled [simp]: "sortAsc (opts\<lparr>cancelled := c\<rparr>) = sortAsc opts"
  by (simp add: sortAsc_def)

lemma sortCol_unset: "sort_opt opts = None \<Longrightarrow> sortCol opts = ''orderedAt''"
  by (simp add: sortCol_def)

lemma sortCol_countOnly: "countOnly opts \<Longrightarrow> sortCol opts = ''orderedAt''"
  by (simp add: sortCol_def split: option.splits)

lemma date_column_cancelled [simp]:
  "date_column (opts\<lparr>cancelled := c\<rparr>) = date_column opts"
  by (simp add: date_column_def)

lemma date_column_countOnly [simp]:
  "date_column (opts\<lparr>countOnly := c\<rparr>) = date_column opts"
  by (simp add: date_column_def)

lemma date_column_sort [simp]:
  "date_column (opts\<lparr>sort_opt := s\<rparr>) = date_column opts"
  "date_column (opts\<lparr>dir := d\<rparr>) = date_column opts"
  by (simp_all add: date_column_def)

lemma referenced_columns_cancelled [simp]:
  "referenced_columns (opts\<lparr>cancelled := c\<rparr>) keyword bounds =
   referenced_columns opts keyword bounds"
  by (simp add: referenced_columns_def)

lemma prepare_cancelled [simp]:
  "prepare t (opts\<lparr>cancelled := c\<rparr>) keyword bounds = prepare t opts keyword bounds"
  by (simp add: prepare_def)

lemma date_clause_cancelled [simp]:
  "date_clause (opts\<lparr>cancelled := c\<rparr>) bounds r = date_clause opts bounds r"
  by (simp add: date_clause_def split: option.splits)

lemma nonAdjusted_clause_cancelled [simp]:
  "nonAdjusted_clause (opts\<lparr>cancelled := c\<rparr>) r = nonAdjusted_clause opts r"
  by (simp add: nonAdjusted_clause_def)

lemma where_clause_countOnly [simp]:
  "where_clause (opts\<lparr>countOnly := c\<rparr>) = where_clause opts"
  by (rule ext)+
    (simp add: where_clause_def cancelled_clause_def date_clause_def
      nonAdjusted_clause_def split: option.splits)

lemma where_clause_sort [simp]:
  "where_clause (opts\<lparr>sort_opt := s\<rparr>) = where_clause opts"
  "where_clause (opts\<lparr>dir := d\<rparr>) = where_clause opts"
  by (rule ext, rule ext, rule ext,
      simp add: where_clause_def cancelled_clause_def date_clause_def
        nonAdjusted_clause_def split: option.splits)+

lemma matching_rows_countOnly [simp]:
  "matching_rows t (opts\<lparr>countOnly := c\<rparr>) keyword bounds = matching_rows t opts keyword bounds"
  by (simp add: matching_rows_def)

lemma referenced_columns_countOnly:
  assumes "sort_opt opts = None"
  shows "referenced_columns (opts\<lparr>countOnly := False\<rparr>) keyword bounds =
         [''etv'', ''etvFactor''] @ referenced_columns (opts\<lparr>countOnly := True\<rparr>) keyword bounds"
proof -
  have "sortCol (opts\<lparr>countOnly := False\<rparr>) = ''orderedAt''"
    and "sortCol (opts\<lparr>countOnly := True\<rparr>) = ''orderedAt''"
    using assms by (simp_all add: sortCol_unset)
  then show ?thesis
    by (simp add: referenced_columns_def)
qed

lemma prepare_countOnly:
  assumes "sort_opt opts = None" "''etv'' \<in> set (cols t)" "''etvFactor'' \<in> set (cols t)"
  shows "prepare t (opts\<lparr>countOnly := True\<rparr>) keyword bounds =
         prepare t (opts\<lparr>countOnly := False\<rparr>) keyword bounds"
  using assms(2,3)
  by (simp add: prepare_def referenced_columns_countOnly [OF assms(1)])

lemma referenced_columns_sort_countOnly:
  assumes "countOnly opts"
  shows "referenced_columns (opts\<lparr>sort_opt := s, dir := d\<rparr>) keyword bounds =
         referenced_columns opts keyword bounds"
proof -
  have "sortCol (opts\<lparr>sort_opt := s, dir := d\<rparr>) = ''orderedAt''"
    and "sortCol opts = ''orderedAt''"
    using assms by (simp_all add: sortCol_countOnly)
  then show ?thesis
    using assms by (simp add: referenced_columns_def)
qed

lemma prepare_sort_countOnly:
  assumes "countOnly opts"
  shows "prepare t (opts\<lparr>sort_opt := s, dir := d\<rparr>) keyword bounds = prepare t opts keyword bounds"
  by (simp add: prepare_def referenced_columns_sort_countOnly [OF assms])

lemma sql_eq_not_both: "sql_eq v (SNum 0) \<Longrightarrow> sql_eq v (SNum 1) \<Longrightarrow> False"
  by (cases v) auto

lemma map_of_select_row:
  "c \<in> set cs \<Longrightarrow> map_of (select_row cs r) c = Some (col r c)"
proof -
  assume "c \<in> set cs"
  then have "map_of (map (\<lambda>c. (c, col r c)) cs) c = Some (col r c)"
    by (induction cs) auto
  then show ?thesis by (simp add: select_row_def)
qed

subsection \<open>C1: the cancellation filter\<close>

text \<open>
  C1, as the specification states it, fails on the code. \<^verbatim>\<open>getOrders\<close> tests the
  column \<^verbatim>\<open>cancelled\<close>; it never reads \<^verbatim>\<open>cancelledAt\<close>. In the example table no row has
  a \<^verbatim>\<open>cancelledAt\<close>, yet the call with \<^verbatim>\<open>cancelled = false\<close> returns three of the four
  rows: order 114, whose flag \<^verbatim>\<open>cancelled\<close> is 1, is left out. On the table as
  \<^verbatim>\<open>migrate\<close> leaves it, where \<^verbatim>\<open>cancelledAt\<close> exists and \<^verbatim>\<open>cancelled\<close> does not, the
  query does not prepare.
\<close>

theorem getOrders_cancelledAt_counterexample:
  "map cancelledAt_present (rows orders_example) = [False, False, False, False] \<and>
   getOrders host_utc orders_example default_options =
     Inr (Rows (map (\<lambda>r. toOrder host_utc (select_row orders_columns r))
                 [row_113, row_112, row_111])) \<and>
   getOrders host_utc (add_column ''cancelledAt'' (drop_column ''cancelled'' orders_example))
     default_options = Inl (SqliteError (NoSuchColumn ''cancelled''))"
proof -
  have a: "map cancelledAt_present (rows orders_example) = [False, False, False, False]"
    by code_simp
  have b: "getOrders host_utc orders_example default_options =
     Inr (Rows (map (\<lambda>r. toOrder host_utc (select_row orders_columns r))
                 [row_113, row_112, row_111]))"
    by code_simp
  have c: "getOrders host_utc
      (add_column ''cancelledAt'' (drop_column ''cancelled'' orders_example))
      default_options = Inl (SqliteError (NoSuchColumn ''cancelled''))"
    by code_simp
  from a b c show ?thesis by blast
qed

text \<open>
  C1, amended. Let the options be accepted (the year and the search text decode to a
  keyword and date bounds, and the query prepares on the table) and \<^verbatim>\<open>countOnly\<close> be
  false. Then \<^verbatim>\<open>getOrders\<close> with \<^verbatim>\<open>cancelled = false\<close> returns the orders of a page
  (limit and offset) of a list \<open>rs\<close> that holds exactly the stored rows whose column
  \<^verbatim>\<open>cancelled\<close> equals 0 and that pass the other filters, each as often as it is stored;
  with \<^verbatim>\<open>cancelled = true\<close> the same holds with 1 for 0. No row is in both lists, and
  together they hold exactly the rows that pass the other filters and whose \<^verbatim>\<open>cancelled\<close>
  is 0 or 1.
\<close>

theorem getOrders_cancelled_filter:
  assumes "filter_inputs h opts = Inr (keyword, bounds)"
    and "prepare t opts keyword bounds = None"
    and "\<not> countOnly opts"
  shows "(\<exists>rs. getOrders h t (opts\<lparr>cancelled := False\<rparr>) =
            Inr (Rows (map (toOrder h) (map (select_row (cols t))
                   (limit_offset (limit opts) (offset opts) rs)))) \<and>
          mset rs = filter_mset (\<lambda>r. sql_eq (col r ''cancelled'') (SNum 0) \<and>
                       keyword_clause keyword r \<and> date_clause opts bounds r \<and>
                       nonAdjusted_clause opts r) (mset (rows t))) \<and>
         (\<exists>rs. getOrders h t (opts\<lparr>cancelled := True\<rparr>) =
            Inr (Rows (map (toOrder h) (map (select_row (cols t))
                   (limit_offset (limit opts) (offset opts) rs)))) \<and>
          mset rs = filter_mset (\<lambda>r. sql_eq (col r ''cancelled'') (SNum 1) \<and>
                       keyword_clause keyword r \<and> date_clause opts bounds r \<and>
                       nonAdjusted_clause opts r) (mset (rows t))) \<and>
         (\<forall>r. \<not> (sql_eq (col r ''cancelled'') (SNum 0) \<and> sql_eq (col r ''cancelled'') (SNum 1))) \<and>
         filter_mset (\<lambda>r. sql_eq (col r ''cancelled'') (SNum 0) \<and>
                       keyword_clause keyword r \<and> date_clause opts bounds r \<and>
                       nonAdjusted_clause opts r) (mset (rows t)) +
         filter_mset (\<lambda>r. sql_eq (col r ''cancelled'') (SNum 1) \<and>
                       keyword_clause keyword r \<and> date_clause opts bounds r \<and>
                       nonAdjusted_clause opts r) (mset (rows t)) =
         filter_mset (\<lambda>r. (sql_eq (col r ''cancelled'') (SNum 0) \<or>
                        sql_eq (col r ''cancelled'') (SNum 1)) \<and>
                       keyword_clause keyword r \<and> date_clause opts bounds r \<and>
                       nonAdjusted_clause opts r) (mset (rows t))"
proof (intro conjI)
  let ?P = "\<lambda>c r. sql_eq (col r ''cancelled'') (SNum c) \<and>
                       keyword_clause keyword r \<and> date_clause opts bounds r \<and>
                       nonAdjusted_clause opts r"
  have w: "\<And>c. where_clause (opts\<lparr>cancelled := c\<rparr>) keyword bounds = ?P (if c then 1 else 0)"
    by (auto simp: where_clause_def cancelled_clause_def fun_eq_iff)
  have g: "\<And>c. getOrders h t (opts\<lparr>cancelled := c\<rparr>) =
     Inr (Rows (map (toOrder h) (map (select_row (cols t))
       (limit_offset (limit opts) (offset opts)
          (order_by (sort_key (sortCol opts)) (sortAsc opts)
             (filter (?P (if c then 1 else 0)) (rows t)))))))"
    using assms by (simp add: getOrders_def matching_rows_def w)
  show "\<exists>rs. getOrders h t (opts\<lparr>cancelled := False\<rparr>) =
            Inr (Rows (map (toOrder h) (map (select_row (cols t))
                   (limit_offset (limit opts) (offset opts) rs)))) \<and>
          mset rs = filter_mset (?P 0) (mset (rows t))"
    using g [of False] by (auto simp: mset_order_by intro!: exI)
  show "\<exists>rs. getOrders h t (opts\<lparr>cancelled := True\<rparr>) =
            Inr (Rows (map (toOrder h) (map (select_row (cols t))
                   (limit_offset (limit opts) (offset opts) rs)))) \<and>
          mset rs = filter_mset (?P 1) (mset (rows t))"
    using g [of True] by (auto simp: mset_order_by intro!: exI)
  show "\<forall>r. \<not> (sql_eq (col r ''cancelled'') (SNum 0) \<and> sql_eq (col r ''cancelled'') (SNum 1))"
    using sql_eq_not_both by blast
  show "filter_mset (?P 0) (mset (rows t)) + filter_mset (?P 1) (mset (rows t)) =
        filter_mset (\<lambda>r. (sql_eq (col r ''cancelled'') (SNum 0) \<or>
                        sql_eq (col r ''cancelled'') (SNum 1)) \<and>
                       keyword_clause keyword r \<and> date_clause opts bounds r \<and>
                       nonAdjusted_clause opts r) (mset (rows t))"
    by (rule multiset_eqI) (auto dest: sql_eq_not_both)
qed

text \<open>The example table with the default options: three rows with the flag 0, one with 1.\<close>

theorem getOrders_cancelled_filter_witness:
  "filter_inputs host_utc default_options = Inr (None, None) \<and>
   prepare orders_example default_options None None = None \<and>
   \<not> countOnly default_options \<and>
   getOrders host_utc orders_example (default_options\<lparr>cancelled := False\<rparr>) =
     Inr (Rows (map (\<lambda>r. toOrder host_utc (select_row orders_columns r))
                 [row_113, row_112, row_111])) \<and>
   getOrders host_utc orders_example (default_options\<lparr>cancelled := True\<rparr>) =
     Inr (Rows (map (\<lambda>r. toOrder host_utc (select_row orders_columns r)) [row_114])) \<and>
   (\<exists>rs. getOrders host_utc orders_example (default_options\<lparr>cancelled := True\<rparr>) =
            Inr (Rows (map (toOrder host_utc) (map (select_row (cols orders_example))
                   (limit_offset (limit default_options) (offset default_options) rs)))) \<and>
          mset rs = filter_mset (\<lambda>r. sql_eq (col r ''cancelled'') (SNum 1) \<and>
                       keyword_clause None r \<and> date_clause default_options None r \<and>
                       nonAdjusted_clause default_options r) (mset (rows orders_example)))"
proof -
  have h1: "filter_inputs host_utc default_options = Inr (None, None)"
    by code_simp
  have h2: "prepare orders_example default_options None None = None"
    by code_simp
  have h3: "\<not> countOnly default_options"
    by (simp add: default_options_def)
  have e1: "getOrders host_utc orders_example (default_options\<lparr>cancelled := False\<rparr>) =
     Inr (Rows (map (\<lambda>r. toOrder host_utc (select_row orders_columns r))
                 [row_113, row_112, row_111]))"
    by code_simp
  have e2: "getOrders host_utc orders_example (default_options\<lparr>cancelled := True\<rparr>) =
     Inr (Rows (map (\<lambda>r. toOrder host_utc (select_row orders_columns r)) [row_114]))"
    by code_simp
  have c: "\<exists>rs. getOrders host_utc orders_example (default_options\<lparr>cancelled := True\<rparr>) =
            Inr (Rows (map (toOrder host_utc) (map (select_row (cols orders_example))
                   (limit_offset (limit default_options) (offset default_options) rs)))) \<and>
          mset rs = filter_mset (\<lambda>r. sql_eq (col r ''cancelled'') (SNum 1) \<and>
                       keyword_clause None r \<and> date_clause default_options None r \<and>
                       nonAdjusted_clause default_options r) (mset (rows orders_example))"
    by (rule getOrders_cancelled_filter [OF h1 h2 h3, THEN conjunct2, THEN conjunct1])
  show ?thesis
    apply (intro conjI)
         apply (rule h1)
        apply (rule h2)
       apply (rule h3)
      apply (rule e1)
     apply (rule e2)
    apply (rule c)
    done
qed

subsection \<open>C2: the count is the number of rows\<close>

text \<open>
  C2. Let \<^verbatim>\<open>sort\<close>, \<^verbatim>\<open>dir\<close>, \<^verbatim>\<open>limit\<close> and \<^verbatim>\<open>offset\<close> be unset, on a table that has
  the columns \<^verbatim>\<open>etv\<close> and \<^verbatim>\<open>etvFactor\<close>. Then the call with \<^verbatim>\<open>countOnly = true\<close> and
  the call with \<^verbatim>\<open>countOnly = false\<close> and the same other options either throw the same
  error, or the first returns the length of the list of orders the second returns.
\<close>

theorem count_equals_number_of_rows:
  assumes "sort_opt opts = None" and "dir opts = None"
    and "limit opts = None" and "offset opts = None"
    and "''etv'' \<in> set (cols t)" and "''etvFactor'' \<in> set (cols t)"
  shows "(\<exists>e. getOrders h t (opts\<lparr>countOnly := True\<rparr>) = Inl e \<and>
              getOrders h t (opts\<lparr>countOnly := False\<rparr>) = Inl e) \<or>
         (\<exists>os. getOrders h t (opts\<lparr>countOnly := True\<rparr>) = Inr (Count (int (length os))) \<and>
               getOrders h t (opts\<lparr>countOnly := False\<rparr>) = Inr (Rows os))"
proof (cases "filter_inputs h opts")
  case (Inl e)
  then show ?thesis by (simp add: getOrders_def)
next
  case (Inr kb)
  obtain keyword bounds where kb: "kb = (keyword, bounds)" by (cases kb)
  have p: "prepare t (opts\<lparr>countOnly := True\<rparr>) keyword bounds =
           prepare t (opts\<lparr>countOnly := False\<rparr>) keyword bounds"
    using assms by (simp add: prepare_countOnly)
  show ?thesis
  proof (cases "prepare t (opts\<lparr>countOnly := False\<rparr>) keyword bounds")
    case (Some e)
    then show ?thesis using Inr kb p by (simp add: getOrders_def)
  next
    case None
    then show ?thesis
      using Inr kb p assms(3,4) by (simp add: getOrders_def length_order_by)
  qed
qed

text \<open>The orders of 2024 in the example table: the count is 1 and one order is returned.\<close>

theorem count_equals_number_of_rows_witness:
  "sort_opt (default_options\<lparr>year := Some 2024\<rparr>) = None \<and>
   dir (default_options\<lparr>year := Some 2024\<rparr>) = None \<and>
   limit (default_options\<lparr>year := Some 2024\<rparr>) = None \<and>
   offset (default_options\<lparr>year := Some 2024\<rparr>) = None \<and>
   ''etv'' \<in> set (cols orders_example) \<and> ''etvFactor'' \<in> set (cols orders_example) \<and>
   getOrders host_utc orders_example (default_options\<lparr>year := Some 2024, countOnly := True\<rparr>) =
     Inr (Count 1) \<and>
   (\<exists>os. getOrders host_utc orders_example
            (default_options\<lparr>year := Some 2024, countOnly := True\<rparr>) =
            Inr (Count (int (length os))) \<and>
          getOrders host_utc orders_example
            (default_options\<lparr>year := Some 2024, countOnly := False\<rparr>) = Inr (Rows os))"
proof -
  let ?o = "default_options\<lparr>year := Some 2024\<rparr>"
  have h1: "sort_opt ?o = None" and h2: "dir ?o = None"
    and h3: "limit ?o = None" and h4: "offset ?o = None"
    by (simp_all add: default_options_def)
  have h5: "''etv'' \<in> set (cols orders_example)"
    and h6: "''etvFactor'' \<in> set (cols orders_example)"
    by (simp_all add: orders_example_def orders_columns_def)
  have e: "getOrders host_utc orders_example (?o\<lparr>countOnly := True\<rparr>) = Inr (Count 1)"
    by code_simp
  have c: "\<exists>os. getOrders host_utc orders_example (?o\<lparr>countOnly := True\<rparr>) =
            Inr (Count (int (length os))) \<and>
          getOrders host_utc orders_example (?o\<lparr>countOnly := False\<rparr>) = Inr (Rows os)"
    using count_equals_number_of_rows [OF h1 h2 h3 h4 h5 h6, of host_utc] e
    by (elim disjE exE conjE) simp_all
  show ?thesis
    apply (intro conjI)
           apply (rule h1)
          apply (rule h2)
         apply (rule h3)
        apply (rule h4)
       apply (rule h5)
      apply (rule h6)
     apply (rule e)
    apply (rule c)
    done
qed

subsection \<open>C4: the count mode and the paging options\<close>

text \<open>
  C4, as stated, fails on the code: \<^verbatim>\<open>LIMIT\<close> and \<^verbatim>\<open>OFFSET\<close> are appended to the
  counting query as well, where they apply to its single result row. The example table
  has three rows that match the default options; with \<^verbatim>\<open>limit = 10\<close> and \<^verbatim>\<open>offset = 1\<close>
  the one row that carries the count is skipped and the call returns 0.
\<close>

theorem count_mode_offset_counterexample:
  "getOrders host_utc orders_example (default_options\<lparr>countOnly := True\<rparr>) = Inr (Count 3) \<and>
   getOrders host_utc orders_example
     (default_options\<lparr>countOnly := True, limit := Some 10, offset := Some 1\<rparr>) = Inr (Count 0)"
proof -
  have a: "getOrders host_utc orders_example (default_options\<lparr>countOnly := True\<rparr>) =
      Inr (Count 3)"
    by code_simp
  have b: "getOrders host_utc orders_example
     (default_options\<lparr>countOnly := True, limit := Some 10, offset := Some 1\<rparr>) = Inr (Count 0)"
    by code_simp
  from a b show ?thesis by blast
qed

text \<open>
  C4, amended. With \<^verbatim>\<open>countOnly = true\<close> the result does not depend on \<^verbatim>\<open>sort\<close> and
  \<^verbatim>\<open>dir\<close>; and when \<^verbatim>\<open>limit\<close> and \<^verbatim>\<open>offset\<close> are unset, as the route \<^verbatim>\<open>/orders\<close>
  passes them, the call throws or returns the number of stored rows that satisfy the
  \<^verbatim>\<open>WHERE\<close> clause of the options.
\<close>

theorem count_mode_ignores_sort_and_dir:
  assumes "countOnly opts"
  shows "getOrders h t (opts\<lparr>sort_opt := s, dir := d\<rparr>) = getOrders h t opts \<and>
         (limit opts = None \<and> offset opts = None \<longrightarrow>
            (\<exists>e. getOrders h t opts = Inl e) \<or>
            (\<exists>keyword bounds. filter_inputs h opts = Inr (keyword, bounds) \<and>
               getOrders h t opts =
                 Inr (Count (int (length (filter (where_clause opts keyword bounds) (rows t)))))))"
proof (intro conjI impI)
  show "getOrders h t (opts\<lparr>sort_opt := s, dir := d\<rparr>) = getOrders h t opts"
    using assms
    by (simp add: getOrders_def prepare_sort_countOnly matching_rows_def
        split: sum.splits option.splits prod.splits)
next
  assume "limit opts = None \<and> offset opts = None"
  then show "(\<exists>e. getOrders h t opts = Inl e) \<or>
            (\<exists>keyword bounds. filter_inputs h opts = Inr (keyword, bounds) \<and>
               getOrders h t opts =
                 Inr (Count (int (length (filter (where_clause opts keyword bounds) (rows t))))))"
    using assms
    by (auto simp: getOrders_def matching_rows_def split: sum.splits option.splits prod.splits)
qed

text \<open>Counting the example table, sorted by \<^verbatim>\<open>etv\<close> ascending or not at all: 3.\<close>

theorem count_mode_ignores_sort_and_dir_witness:
  "countOnly (default_options\<lparr>countOnly := True\<rparr>) \<and>
   limit (default_options\<lparr>countOnly := True\<rparr>) = None \<and>
   offset (default_options\<lparr>countOnly := True\<rparr>) = None \<and>
   getOrders host_utc orders_example
     (default_options\<lparr>countOnly := True, sort_opt := Some ''etv'', dir := Some ''asc''\<rparr>) =
     Inr (Count 3) \<and>
   getOrders host_utc orders_example (default_options\<lparr>countOnly := True\<rparr>) = Inr (Count 3)"
proof -
  let ?o = "default_options\<lparr>countOnly := True\<rparr>"
  have h: "countOnly ?o" and l: "limit ?o = None" and f: "offset ?o = None"
    by (simp_all add: default_options_def)
  have e: "getOrders host_utc orders_example ?o = Inr (Count 3)"
    by code_simp
  have "getOrders host_utc orders_example (?o\<lparr>sort_opt := Some ''etv'', dir := Some ''asc''\<rparr>) =
        getOrders host_utc orders_example ?o"
    by (rule count_mode_ignores_sort_and_dir [OF h, THEN conjunct1])
  with h l f e show ?thesis by simp
qed

subsection \<open>C5: a search text that is a date\<close>

lemma is_digit_facts:
  assumes "is_digit c"
  shows "c \<noteq> CHR ''-''" "c \<noteq> CHR ''+''" "\<not> is_space c" "0 \<le> digit_val c" "digit_val c \<le> 9"
  using assms by (auto simp: is_digit_def is_space_def digit_val_def)

lemma date_pattern_shape:
  assumes "date_pattern s"
  shows "\<exists>a b c d e f g i. s = [a, b, c, d, CHR ''-'', e, f, CHR ''-'', g, i] \<and>
           is_digit a \<and> is_digit b \<and> is_digit c \<and> is_digit d \<and>
           is_digit e \<and> is_digit f \<and> is_digit g \<and> is_digit i"
proof -
  from assms have "length s = 10" by (simp add: date_pattern_def)
  then obtain a b c d x e f z g i where s: "s = [a, b, c, d, x, e, f, z, g, i]"
    by (auto simp: eval_nat_numeral length_Suc_conv)
  with assms show ?thesis by (simp add: date_pattern_def)
qed

lemma parseInt_digits2:
  assumes "is_digit a" "is_digit b"
  shows "safeParseInt (Some [a, b]) = Some (10 * digit_val a + digit_val b)"
  using assms is_digit_facts(1-3) [OF assms(1)]
  by (simp add: safeParseInt_def parseInt_def Let_def)

lemma parseInt_digits4:
  assumes "is_digit a" "is_digit b" "is_digit c" "is_digit d"
  shows "safeParseInt (Some [a, b, c, d]) =
         Some (1000 * digit_val a + 100 * digit_val b + 10 * digit_val c + digit_val d)"
  using assms is_digit_facts(1-3) [OF assms(1)]
  by (simp add: safeParseInt_def parseInt_def Let_def)

lemma date_pattern_parts:
  assumes "date_pattern s"
  shows "\<exists>y m d. safeParseInt (nth_opt (str_split CHR ''-'' s) 0) = Some y \<and>
           safeParseInt (nth_opt (str_split CHR ''-'' s) 1) = Some m \<and>
           safeParseInt (nth_opt (str_split CHR ''-'' s) 2) = Some d \<and>
           0 \<le> y \<and> y \<le> 9999 \<and> 0 \<le> m \<and> m \<le> 99 \<and> 0 \<le> d \<and> d \<le> 99"
proof -
  from date_pattern_shape [OF assms] obtain a b c d e f g i
    where s: "s = [a, b, c, d, CHR ''-'', e, f, CHR ''-'', g, i]"
      and dg: "is_digit a" "is_digit b" "is_digit c" "is_digit d"
        "is_digit e" "is_digit f" "is_digit g" "is_digit i"
    by blast
  have sp: "str_split CHR ''-'' s = [[a, b, c, d], [e, f], [g, i]]"
    using dg [THEN is_digit_facts(1)] by (simp add: s)
  note r = dg [THEN is_digit_facts(4)] dg [THEN is_digit_facts(5)]
  show ?thesis
    using r
    by (simp add: sp nth_opt_def parseInt_digits4 [OF dg(1-4)] parseInt_digits2 [OF dg(5,6)]
        parseInt_digits2 [OF dg(7,8)])
qed

lemma MakeDay_first_of_year: "MakeDay y 0 1 = DayFromYear y"
  by (simp add: MakeDay_def days_before_month_def)

lemma year_bounds_value:
  assumes "100 \<le> y" "y \<le> 9999" "\<bar>tza h\<bar> \<le> msPerDay"
  shows "year_bounds h y =
     Inr (iso_string (UTC (tza h) (MakeDate (MakeDay y 0 1) (MakeTime 0 0 0 0))),
          iso_string (UTC (tza h) (MakeDate (MakeDay y 11 31) (MakeTime 11 59 59 999))))"
proof -
  let ?z = "tza h"
  have b0: "- 720000 \<le> MakeDay y 0 1" "MakeDay y 0 1 \<le> 2971000"
    using MakeDay_bounds [of y 0 1] assms by simp_all
  have b1: "- 720000 \<le> MakeDay y 11 31" "MakeDay y 11 31 \<le> 2971000"
    using MakeDay_bounds [of y 11 31] assms by simp_all
  have z: "(0::int) \<le> MakeTime 0 0 0 0" "MakeTime 0 0 0 0 < msPerDay"
    by (simp_all add: MakeTime_def msPerDay_def)
  have v0: "\<bar>UTC ?z (MakeDate (MakeDay y 0 1) (MakeTime 0 0 0 0))\<bar> \<le> 8640000000000000"
    using assms(3) b0 by (simp add: UTC_def MakeDate_def MakeTime_def msPerDay_def; linarith)
  have n: "new_Date_local ?z y 0 1 0 0 0 0 =
      Some (UTC ?z (MakeDate (MakeDay y 0 1) (MakeTime 0 0 0 0)))"
    using assms(1) by (simp add: new_Date_local_def TimeClip_ok [OF v0])
  have l: "LocalTime ?z (UTC ?z (MakeDate (MakeDay y 0 1) (MakeTime 0 0 0 0))) =
      MakeDate (MakeDay y 0 1) (MakeTime 0 0 0 0)"
    by (simp add: LocalTime_def UTC_def)
  have yr: "YearFromTime (MakeDate (MakeDay y 0 1) (MakeTime 0 0 0 0)) = y"
  proof (rule YearFromTime_unique)
    show "DayFromYear y \<le> Day (MakeDate (MakeDay y 0 1) (MakeTime 0 0 0 0))"
      by (simp add: Day_MakeDate(1) [OF z] MakeDay_first_of_year)
    show "Day (MakeDate (MakeDay y 0 1) (MakeTime 0 0 0 0)) < DayFromYear (y + 1)"
      using DayFromYear_step [of y] by (simp add: Day_MakeDate(1) [OF z] MakeDay_first_of_year)
  qed
  have v1: "\<bar>UTC ?z (MakeDate (MakeDay y 11 31) (MakeTime 0 0 0 0))\<bar> \<le> 8640000000000000"
    using assms(3) b1 by (simp add: UTC_def MakeDate_def MakeTime_def msPerDay_def; linarith)
  have sm: "setMonth ?z 11 31 (Some (UTC ?z (MakeDate (MakeDay y 0 1) (MakeTime 0 0 0 0)))) =
      Some (UTC ?z (MakeDate (MakeDay y 11 31) (MakeTime 0 0 0 0)))"
    by (simp add: setMonth_def Let_def l yr Day_MakeDate(2) [OF z] TimeClip_ok [OF v1])
  have v2: "\<bar>MakeDay y 11 31 * msPerDay + MakeTime 11 59 59 999 - ?z\<bar> \<le> 8640000000000000"
    using assms(3) b1 by (simp add: MakeTime_def msPerDay_def; linarith)
  have sh: "setHours ?z 11 59 59 999 (Some (UTC ?z (MakeDate (MakeDay y 11 31) (MakeTime 0 0 0 0)))) =
      Some (UTC ?z (MakeDate (MakeDay y 11 31) (MakeTime 11 59 59 999)))"
    by (rule setHours_local_day [OF z v2])
  show ?thesis
    by (simp add: year_bounds_def Let_def n sm sh toISOString_def)
qed

lemma sortCol_cases:
  "sortCol opts = ''orderedAt'' \<or> sortCol opts = ''etv'' \<or> sortCol opts = ''etvFactor'' \<or>
   sortCol opts = ''adjustedEtv''"
  by (auto simp: sortCol_def split: option.splits)

lemma referenced_columns_in_schema:
  "set (referenced_columns opts keyword bounds) \<subseteq> set orders_columns"
proof -
  have d: "date_column opts \<in> set orders_columns"
    by (simp add: date_column_def orders_columns_def)
  have s: "sortCol opts \<noteq> ''adjustedEtv'' \<Longrightarrow> sortCol opts \<in> set orders_columns"
    using sortCol_cases [of opts] by (auto simp: orders_columns_def)
  have f: "''etv'' \<in> set orders_columns" "''etvFactor'' \<in> set orders_columns"
    "''cancelled'' \<in> set orders_columns" "''number'' \<in> set orders_columns"
    "''asin'' \<in> set orders_columns" "''product'' \<in> set orders_columns"
    "''etvReason'' \<in> set orders_columns"
    by (simp_all add: orders_columns_def)
  show ?thesis
    unfolding referenced_columns_def using d s f by auto
qed

lemma prepare_ok:
  assumes "set orders_columns \<subseteq> set (cols t)" and "offset opts = None \<or> limit opts \<noteq> None"
  shows "prepare t opts keyword bounds = None"
proof -
  have "set (referenced_columns opts keyword bounds) \<subseteq> set (cols t)"
    using referenced_columns_in_schema assms(1) by blast
  then have "filter (\<lambda>c. c \<notin> set (cols t)) (referenced_columns opts keyword bounds) = []"
    by (auto simp: filter_empty_conv)
  with assms(2) show ?thesis by (auto simp: prepare_def)
qed

lemma date_column_year [simp]: "date_column (opts\<lparr>year := v\<rparr>) = date_column opts"
  by (simp add: date_column_def)

lemma sortCol_year [simp]: "sortCol (opts\<lparr>year := v\<rparr>) = sortCol opts"
  by (simp add: sortCol_def split: option.splits)

lemma sortAsc_year [simp]: "sortAsc (opts\<lparr>year := v\<rparr>) = sortAsc opts"
  by (simp add: sortAsc_def)

lemma referenced_columns_year [simp]:
  "referenced_columns (opts\<lparr>year := v\<rparr>) keyword bounds = referenced_columns opts keyword bounds"
  by (simp add: referenced_columns_def)

lemma prepare_year [simp]:
  "prepare t (opts\<lparr>year := v\<rparr>) keyword bounds = prepare t opts keyword bounds"
  by (simp add: prepare_def)

lemma prepare_year_fun [simp]: "prepare t (opts\<lparr>year := v\<rparr>) = prepare t opts"
  by (rule ext)+ simp

lemma where_clause_year [simp]: "where_clause (opts\<lparr>year := v\<rparr>) = where_clause opts"
  by (rule ext)+
    (simp add: where_clause_def cancelled_clause_def date_clause_def
      nonAdjusted_clause_def split: option.splits)

lemma matching_rows_year [simp]:
  "matching_rows t (opts\<lparr>year := v\<rparr>) keyword bounds = matching_rows t opts keyword bounds"
  by (simp add: matching_rows_def)

lemma getOrders_from_inputs:
  assumes "filter_inputs h opts = filter_inputs h opts'"
    and "prepare t opts = prepare t opts'"
    and "where_clause opts = where_clause opts'"
    and "countOnly opts = countOnly opts'" "limit opts = limit opts'" "offset opts = offset opts'"
    and "sortCol opts = sortCol opts'" "sortAsc opts = sortAsc opts'"
  shows "getOrders h t opts = getOrders h t opts'"
  using assms
  by (simp add: getOrders_def matching_rows_def
      cong: sum.case_cong option.case_cong prod.case_cong if_cong)

lemma filter_inputs_date_search:
  assumes "search opts = Some s" and "date_pattern s"
    and "year opts = None \<or> year opts = Some 0 \<or> (\<exists>b. year_bounds h (the (year opts)) = Inr b)"
  shows "filter_inputs h opts = map_sum id (\<lambda>b. (None, Some b)) (search_bounds h s)"
proof -
  from assms(2) have ne: "s \<noteq> []" by (auto simp: date_pattern_def)
  from assms(3) show ?thesis
    using assms(1,2) ne by (auto simp: filter_inputs_def split: option.splits)
qed

text \<open>
  C5, as stated, fails on the code. Not every text of the shape \<^verbatim>\<open>YYYY-MM-DD\<close> gets a
  single-day bound: the code rejects a year, month or day that decodes to 0, so the
  searches for \<^verbatim>\<open>2024-00-10\<close> and \<^verbatim>\<open>0000-06-15\<close> throw \<^verbatim>\<open>Invalid date\<close>. And the
  day that is bounded is the one the date arithmetic of the host assigns to the three
  numbers, which need not be the date written: \<^verbatim>\<open>2024-02-31\<close> bounds 2 March 2024.
\<close>

theorem search_date_zero_component_counterexample:
  "date_pattern ''2024-00-10'' \<and>
   getOrders host_utc orders_example (default_options\<lparr>search := Some ''2024-00-10''\<rparr>) =
     Inl Error_Invalid_date \<and>
   date_pattern ''0000-06-15'' \<and>
   getOrders host_utc orders_example (default_options\<lparr>search := Some ''0000-06-15''\<rparr>) =
     Inl Error_Invalid_date \<and>
   date_pattern ''2024-02-31'' \<and>
   filter_inputs host_utc (default_options\<lparr>search := Some ''2024-02-31''\<rparr>) =
     Inr (None, Some (''2024-03-02T00:00:00.000Z'', ''2024-03-02T23:59:59.999Z''))"
proof -
  have a: "date_pattern ''2024-00-10''" by code_simp
  have b: "getOrders host_utc orders_example (default_options\<lparr>search := Some ''2024-00-10''\<rparr>) =
     Inl Error_Invalid_date"
    by code_simp
  have c: "date_pattern ''0000-06-15''" by code_simp
  have d: "getOrders host_utc orders_example (default_options\<lparr>search := Some ''0000-06-15''\<rparr>) =
     Inl Error_Invalid_date"
    by code_simp
  have e: "date_pattern ''2024-02-31''" by code_simp
  have f: "filter_inputs host_utc (default_options\<lparr>search := Some ''2024-02-31''\<rparr>) =
     Inr (None, Some (''2024-03-02T00:00:00.000Z'', ''2024-03-02T23:59:59.999Z''))"
    by code_simp
  show ?thesis
    apply (intro conjI)
         apply (rule a)
        apply (rule b)
       apply (rule c)
      apply (rule d)
     apply (rule e)
    apply (rule f)
    done
qed

text \<open>
  The guard in general: a search text of the shape of a date with a component that
  decodes to 0 makes \<^verbatim>\<open>getOrders\<close> throw, whatever the table holds.
\<close>

lemma search_bounds_zero_component:
  assumes "safeParseInt (nth_opt (str_split CHR ''-'' s) 0) = Some y"
    and "safeParseInt (nth_opt (str_split CHR ''-'' s) 1) = Some m"
    and "safeParseInt (nth_opt (str_split CHR ''-'' s) 2) = Some d"
    and "y = 0 \<or> m = 0 \<or> d = 0"
  shows "search_bounds h s = Inl Error_Invalid_date"
  using assms by (simp add: search_bounds_def Let_def)

lemma getOrders_zero_component_throws:
  assumes "search opts = Some s" and "date_pattern s"
    and "safeParseInt (nth_opt (str_split CHR ''-'' s) 0) = Some y"
    and "safeParseInt (nth_opt (str_split CHR ''-'' s) 1) = Some m"
    and "safeParseInt (nth_opt (str_split CHR ''-'' s) 2) = Some d"
    and "y = 0 \<or> m = 0 \<or> d = 0"
    and "\<bar>tza h\<bar> \<le> msPerDay"
    and "year opts = None \<or> (\<exists>v. year opts = Some v \<and> 2000 \<le> v \<and> v \<le> 3000)"
  shows "getOrders h t opts = Inl Error_Invalid_date"
proof -
  have yb: "year opts = None \<or> year opts = Some 0 \<or>
            (\<exists>b. year_bounds h (the (year opts)) = Inr b)"
  proof (cases "year opts")
    case None
    then show ?thesis by simp
  next
    case (Some v)
    with assms(8) have "100 \<le> v" "v \<le> 9999" by auto
    from year_bounds_value [OF this assms(7)] Some show ?thesis by simp
  qed
  have "filter_inputs h opts = Inl Error_Invalid_date"
    using filter_inputs_date_search [OF assms(1,2) yb]
    by (simp add: search_bounds_zero_component [OF assms(3-6)])
  then show ?thesis by (simp add: getOrders_def)
qed


text \<open>
  C5, amended. Let the search text have the shape \<^verbatim>\<open>YYYY-MM-DD\<close> and let its three
  numbers, as the code decodes them, be \<open>y\<close>, \<open>m\<close> and \<open>d\<close>, none of them 0; let the
  host's zone be within a day of UTC, the year option be unset or between 2000 and 3000,
  the table have the columns of \<^verbatim>\<open>index.js\<close> and no offset be given without a limit.
  Then the date bounds of the query are the ISO texts of the first and the last
  millisecond (00:00:00.000 and 23:59:59.999 local time) of the day that the host's date
  arithmetic makes of year \<open>y\<close>, month \<open>m\<close> and day \<open>d\<close>, where a month above 12 or a
  day beyond the end of the month carries over; and there is no keyword. In row mode
  \<^verbatim>\<open>getOrders\<close> returns the orders of a page of a list that holds exactly the stored
  rows that pass the test of \<^verbatim>\<open>cancelled\<close> and of \<^verbatim>\<open>nonAdjustedOnly\<close> and whose
  \<^verbatim>\<open>deliveredAt\<close> (with \<^verbatim>\<open>byDelivered\<close>) or \<^verbatim>\<open>orderedAt\<close> (without) lies between
  these two texts. And the result is the same as without the year option: the year bound
  is replaced, not intersected.
\<close>

theorem search_date_replaces_year_bound:
  assumes "search opts = Some s" and "date_pattern s"
    and "safeParseInt (nth_opt (str_split CHR ''-'' s) 0) = Some y"
    and "safeParseInt (nth_opt (str_split CHR ''-'' s) 1) = Some m"
    and "safeParseInt (nth_opt (str_split CHR ''-'' s) 2) = Some d"
    and "y \<noteq> 0" and "m \<noteq> 0" and "d \<noteq> 0"
    and "\<bar>tza h\<bar> \<le> msPerDay"
    and "year opts = None \<or> (\<exists>v. year opts = Some v \<and> 2000 \<le> v \<and> v \<le> 3000)"
    and "set orders_columns \<subseteq> set (cols t)"
    and "offset opts = None \<or> limit opts \<noteq> None"
  shows "filter_inputs h opts =
           Inr (None,
                Some (iso_string (UTC (tza h) (MakeDate (MakeDay y (m - 1) d) (MakeTime 0 0 0 0))),
                      iso_string (UTC (tza h)
                        (MakeDate (MakeDay y (m - 1) d) (MakeTime 23 59 59 999))))) \<and>
         (\<not> countOnly opts \<longrightarrow>
            (\<exists>rs. getOrders h t opts =
                     Inr (Rows (map (toOrder h) (map (select_row (cols t))
                            (limit_offset (limit opts) (offset opts) rs)))) \<and>
                   mset rs =
                     filter_mset
                       (\<lambda>r. cancelled_clause opts r \<and> nonAdjusted_clause opts r \<and>
                          sql_ge (col r (if byDelivered opts then ''deliveredAt'' else ''orderedAt''))
                            (SText (iso_string (UTC (tza h)
                               (MakeDate (MakeDay y (m - 1) d) (MakeTime 0 0 0 0))))) \<and>
                          sql_le (col r (if byDelivered opts then ''deliveredAt'' else ''orderedAt''))
                            (SText (iso_string (UTC (tza h)
                               (MakeDate (MakeDay y (m - 1) d) (MakeTime 23 59 59 999))))))
                       (mset (rows t)))) \<and>
         getOrders h t opts = getOrders h t (opts\<lparr>year := None\<rparr>)"
proof -
  let ?sd = "iso_string (UTC (tza h) (MakeDate (MakeDay y (m - 1) d) (MakeTime 0 0 0 0)))"
  let ?ed = "iso_string (UTC (tza h) (MakeDate (MakeDay y (m - 1) d) (MakeTime 23 59 59 999)))"
  from date_pattern_parts [OF assms(2)] assms(3-5)
  have r: "0 \<le> y" "y \<le> 9999" "0 \<le> m" "m \<le> 99" "0 \<le> d" "d \<le> 99"
    by auto
  with assms(6-8) have r1: "1 \<le> y" "1 \<le> m" "1 \<le> d" by simp_all
  have sb: "search_bounds h s = Inr (?sd, ?ed)"
    by (rule search_bounds_value [OF assms(3-5) r1(1) r(2) r1(2) r(4) r1(3) r(6) assms(9)])
  have yb: "year opts = None \<or> year opts = Some 0 \<or>
            (\<exists>b. year_bounds h (the (year opts)) = Inr b)"
  proof (cases "year opts")
    case None
    then show ?thesis by simp
  next
    case (Some v)
    with assms(10) have "100 \<le> v" "v \<le> 9999" by auto
    from year_bounds_value [OF this assms(9)] Some show ?thesis by simp
  qed
  have fi: "filter_inputs h opts = Inr (None, Some (?sd, ?ed))"
    using filter_inputs_date_search [OF assms(1,2) yb] by (simp add: sb)
  have fi': "filter_inputs h (opts\<lparr>year := None\<rparr>) = Inr (None, Some (?sd, ?ed))"
    using filter_inputs_date_search [of "opts\<lparr>year := None\<rparr>" s h] assms(1,2)
    by (simp add: sb)
  have pr: "prepare t opts None (Some (?sd, ?ed)) = None"
    by (rule prepare_ok [OF assms(11,12)])
  have w: "where_clause opts None (Some (?sd, ?ed)) =
      (\<lambda>r. cancelled_clause opts r \<and> nonAdjusted_clause opts r \<and>
            sql_ge (col r (if byDelivered opts then ''deliveredAt'' else ''orderedAt'')) (SText ?sd) \<and>
            sql_le (col r (if byDelivered opts then ''deliveredAt'' else ''orderedAt'')) (SText ?ed))"
    by (rule ext) (auto simp: where_clause_def keyword_clause_def date_clause_def date_column_def)
  have rows: "\<not> countOnly opts \<longrightarrow>
      (\<exists>rs. getOrders h t opts =
               Inr (Rows (map (toOrder h) (map (select_row (cols t))
                      (limit_offset (limit opts) (offset opts) rs)))) \<and>
             mset rs = filter_mset (where_clause opts None (Some (?sd, ?ed))) (mset (rows t)))"
  proof
    assume "\<not> countOnly opts"
    then have "getOrders h t opts =
        Inr (Rows (map (toOrder h) (map (select_row (cols t))
          (limit_offset (limit opts) (offset opts)
             (order_by (sort_key (sortCol opts)) (sortAsc opts)
                (filter (where_clause opts None (Some (?sd, ?ed))) (rows t)))))))"
      by (simp add: getOrders_def fi pr matching_rows_def)
    then show "\<exists>rs. getOrders h t opts =
               Inr (Rows (map (toOrder h) (map (select_row (cols t))
                      (limit_offset (limit opts) (offset opts) rs)))) \<and>
             mset rs = filter_mset (where_clause opts None (Some (?sd, ?ed))) (mset (rows t))"
      by (auto simp: mset_order_by intro!: exI)
  qed
  have ind: "getOrders h t opts = getOrders h t (opts\<lparr>year := None\<rparr>)"
    by (rule getOrders_from_inputs) (simp_all add: fi fi')
  from fi rows ind show ?thesis
    unfolding w by (intro conjI)
qed

text \<open>
  Searching the example table for 2024-06-15 with the year 2023: order 112 of June 2024
  is returned, which the year 2023 alone would exclude.
\<close>

theorem search_date_replaces_year_bound_witness:
  "search (default_options\<lparr>search := Some ''2024-06-15'', year := Some 2023\<rparr>) =
     Some ''2024-06-15'' \<and>
   date_pattern ''2024-06-15'' \<and>
   safeParseInt (nth_opt (str_split CHR ''-'' ''2024-06-15'') 0) = Some 2024 \<and>
   safeParseInt (nth_opt (str_split CHR ''-'' ''2024-06-15'') 1) = Some 6 \<and>
   safeParseInt (nth_opt (str_split CHR ''-'' ''2024-06-15'') 2) = Some 15 \<and>
   \<bar>tza host_utc\<bar> \<le> msPerDay \<and>
   set orders_columns \<subseteq> set (cols orders_example) \<and>
   filter_inputs host_utc (default_options\<lparr>search := Some ''2024-06-15'', year := Some 2023\<rparr>) =
     Inr (None, Some (''2024-06-15T00:00:00.000Z'', ''2024-06-15T23:59:59.999Z'')) \<and>
   getOrders host_utc orders_example
     (default_options\<lparr>search := Some ''2024-06-15'', year := Some 2023\<rparr>) =
     Inr (Rows [toOrder host_utc (select_row orders_columns row_112)]) \<and>
   getOrders host_utc orders_example
     (default_options\<lparr>search := Some ''2024-06-15'', year := Some 2023\<rparr>) =
   getOrders host_utc orders_example
     (default_options\<lparr>search := Some ''2024-06-15'', year := Some 2023, year := None\<rparr>)"
proof -
  let ?o = "default_options\<lparr>search := Some ''2024-06-15'', year := Some 2023\<rparr>"
  have h1: "search ?o = Some ''2024-06-15''" by (simp add: default_options_def)
  have h2: "date_pattern ''2024-06-15''" by code_simp
  have h3: "safeParseInt (nth_opt (str_split CHR ''-'' ''2024-06-15'') 0) = Some 2024" by code_simp
  have h4: "safeParseInt (nth_opt (str_split CHR ''-'' ''2024-06-15'') 1) = Some 6" by code_simp
  have h5: "safeParseInt (nth_opt (str_split CHR ''-'' ''2024-06-15'') 2) = Some 15" by code_simp
  have h6: "(2024::int) \<noteq> 0" "(6::int) \<noteq> 0" "(15::int) \<noteq> 0" by simp_all
  have h7: "\<bar>tza host_utc\<bar> \<le> msPerDay" by (simp add: host_utc_def msPerDay_def)
  have h8: "year ?o = None \<or> (\<exists>v. year ?o = Some v \<and> 2000 \<le> v \<and> v \<le> 3000)"
    by (simp add: default_options_def)
  have h9: "set orders_columns \<subseteq> set (cols orders_example)"
    by (simp add: orders_example_def)
  have h10: "offset ?o = None \<or> limit ?o \<noteq> None" by (simp add: default_options_def)
  note inst = search_date_replaces_year_bound [OF h1 h2 h3 h4 h5 h6 h7 h8 h9 h10]
  have i1: "iso_string (UTC (tza host_utc) (MakeDate (MakeDay 2024 (6 - 1) 15) (MakeTime 0 0 0 0))) =
      ''2024-06-15T00:00:00.000Z''"
    by code_simp
  have i2: "iso_string (UTC (tza host_utc)
      (MakeDate (MakeDay 2024 (6 - 1) 15) (MakeTime 23 59 59 999))) = ''2024-06-15T23:59:59.999Z''"
    by code_simp
  have c1: "filter_inputs host_utc ?o =
     Inr (None, Some (''2024-06-15T00:00:00.000Z'', ''2024-06-15T23:59:59.999Z''))"
    using inst [THEN conjunct1] by (simp only: i1 i2)
  have c2: "getOrders host_utc orders_example ?o =
     Inr (Rows [toOrder host_utc (select_row orders_columns row_112)])"
    by code_simp
  have c3: "getOrders host_utc orders_example ?o =
      getOrders host_utc orders_example (?o\<lparr>year := None\<rparr>)"
    by (rule inst [THEN conjunct2, THEN conjunct2])
  show ?thesis
    apply (intro conjI)
             apply (rule h1)
            apply (rule h2)
           apply (rule h3)
          apply (rule h4)
         apply (rule h5)
        apply (rule h7)
       apply (rule h9)
      apply (rule c1)
     apply (rule c2)
    apply (rule c3)
    done
qed

subsection \<open>C10: the delivery date of an undelivered order\<close>

text \<open>
  C10. \<^verbatim>\<open>toOrder\<close> always builds a \<^verbatim>\<open>Date\<close> for \<^verbatim>\<open>deliveredAt\<close>. For a row of a table
  with the column \<^verbatim>\<open>deliveredAt\<close> whose cell is NULL, the date has the time value 0, the
  epoch. Every order \<^verbatim>\<open>getOrders\<close> returns in row mode is \<^verbatim>\<open>toOrder\<close> of a stored row.
  And a row whose \<^verbatim>\<open>deliveredAt\<close> is a text that the host parses to the time value 0
  gives the same \<^verbatim>\<open>deliveredAt\<close> as a row where it is NULL.
\<close>

theorem deliveredAt_of_null_is_epoch:
  "(''deliveredAt'' \<in> set cs \<and> col r ''deliveredAt'' = SNull \<longrightarrow>
      deliveredAt (toOrder h (select_row cs r)) = Some 0) \<and>
   (getOrders h t opts = Inr (Rows os) \<longrightarrow>
      (\<exists>rs. set rs \<subseteq> set (rows t) \<and> os = map (\<lambda>r. toOrder h (select_row (cols t) r)) rs)) \<and>
   (''deliveredAt'' \<in> set cs \<and> col r ''deliveredAt'' = SNull \<and>
    col r' ''deliveredAt'' = SText s \<and> parse h s = Some 0 \<longrightarrow>
      deliveredAt (toOrder h (select_row cs r)) = deliveredAt (toOrder h (select_row cs r')))"
proof (intro conjI impI)
  assume "''deliveredAt'' \<in> set cs \<and> col r ''deliveredAt'' = SNull"
  then show "deliveredAt (toOrder h (select_row cs r)) = Some 0"
    by (simp add: toOrder_def map_of_select_row new_Date_def TimeClip_def)
next
  assume g: "getOrders h t opts = Inr (Rows os)"
  show "\<exists>rs. set rs \<subseteq> set (rows t) \<and> os = map (\<lambda>r. toOrder h (select_row (cols t) r)) rs"
  proof (cases "filter_inputs h opts")
    case (Inl e)
    with g show ?thesis by (simp add: getOrders_def)
  next
    case (Inr kb)
    obtain keyword bounds where kb: "kb = (keyword, bounds)" by (cases kb)
    let ?rs = "limit_offset (limit opts) (offset opts)
                 (order_by (sort_key (sortCol opts)) (sortAsc opts)
                    (matching_rows t opts keyword bounds))"
    from g Inr kb have os: "os = map (\<lambda>r. toOrder h (select_row (cols t) r)) ?rs"
      by (auto simp: getOrders_def split: option.splits if_splits list.splits)
    have "set ?rs \<subseteq> set (rows t)"
      using set_limit_offset [of "limit opts" "offset opts"
          "order_by (sort_key (sortCol opts)) (sortAsc opts) (matching_rows t opts keyword bounds)"]
      by (auto simp: set_order_by matching_rows_def)
    with os show ?thesis by blast
  qed
next
  assume "''deliveredAt'' \<in> set cs \<and> col r ''deliveredAt'' = SNull \<and>
    col r' ''deliveredAt'' = SText s \<and> parse h s = Some 0"
  then show "deliveredAt (toOrder h (select_row cs r)) = deliveredAt (toOrder h (select_row cs r'))"
    by (simp add: toOrder_def map_of_select_row new_Date_def TimeClip_def)
qed

text \<open>
  Order 111 of the example table was never delivered; \<^verbatim>\<open>getOrders\<close> returns it with the
  epoch as its delivery date, as it would an order delivered at the epoch.
\<close>

theorem deliveredAt_of_null_is_epoch_witness:
  "''deliveredAt'' \<in> set orders_columns \<and> col row_111 ''deliveredAt'' = SNull \<and>
   deliveredAt (toOrder host_utc (select_row orders_columns row_111)) = Some 0 \<and>
   getOrders host_utc orders_example (default_options\<lparr>year := Some 2023\<rparr>) =
     Inr (Rows [toOrder host_utc (select_row orders_columns row_111)]) \<and>
   (\<exists>rs. set rs \<subseteq> set (rows orders_example) \<and>
      [toOrder host_utc (select_row orders_columns row_111)] =
        map (\<lambda>r. toOrder host_utc (select_row (cols orders_example) r)) rs) \<and>
   col (order_row ''115'' ''B05'' ''Globe'' ''1969-12-20T12:00:00.000Z''
          (SText ''1970-01-01T00:00:00.000Z'') 5 SNull 0) ''deliveredAt'' =
     SText ''1970-01-01T00:00:00.000Z'' \<and>
   parse host_utc ''1970-01-01T00:00:00.000Z'' = Some 0 \<and>
   deliveredAt (toOrder host_utc (select_row orders_columns row_111)) =
   deliveredAt (toOrder host_utc (select_row orders_columns
     (order_row ''115'' ''B05'' ''Globe'' ''1969-12-20T12:00:00.000Z''
        (SText ''1970-01-01T00:00:00.000Z'') 5 SNull 0)))"
proof -
  let ?r = "order_row ''115'' ''B05'' ''Globe'' ''1969-12-20T12:00:00.000Z''
          (SText ''1970-01-01T00:00:00.000Z'') 5 SNull 0"
  have h1: "''deliveredAt'' \<in> set orders_columns"
    by (simp add: orders_columns_def)
  have h2: "col row_111 ''deliveredAt'' = SNull"
    by (simp add: row_111_def order_row_def col_def)
  have h3: "col ?r ''deliveredAt'' = SText ''1970-01-01T00:00:00.000Z''"
    by (simp add: order_row_def col_def)
  have h4: "parse host_utc ''1970-01-01T00:00:00.000Z'' = Some 0"
    by (simp add: host_utc_def parse_example_def)
  have g: "getOrders host_utc orders_example (default_options\<lparr>year := Some 2023\<rparr>) =
     Inr (Rows [toOrder host_utc (select_row orders_columns row_111)])"
    by code_simp
  note inst = deliveredAt_of_null_is_epoch
    [of orders_columns row_111 host_utc orders_example "default_options\<lparr>year := Some 2023\<rparr>"
      "[toOrder host_utc (select_row orders_columns row_111)]" ?r
      "''1970-01-01T00:00:00.000Z''"]
  from inst h1 h2 have c1: "deliveredAt (toOrder host_utc (select_row orders_columns row_111)) = Some 0"
    by blast
  from inst g have c2: "\<exists>rs. set rs \<subseteq> set (rows orders_example) \<and>
      [toOrder host_utc (select_row orders_columns row_111)] =
        map (\<lambda>r. toOrder host_utc (select_row (cols orders_example) r)) rs"
    by blast
  from inst h1 h2 h3 h4 have c3: "deliveredAt (toOrder host_utc (select_row orders_columns row_111)) =
      deliveredAt (toOrder host_utc (select_row orders_columns ?r))"
    by blast
  show ?thesis
    apply (intro conjI)
           apply (rule h1)
          apply (rule h2)
         apply (rule c1)
        apply (rule g)
       apply (rule c2)
      apply (rule h3)
     apply (rule h4)
    apply (rule c3)
    done
qed



subsection \<open>C3: the year bound\<close>

text \<open>
  C3. The code does not do what the claim says. The end of the year bound is built with
  \<^verbatim>\<open>dt.setHours(11, 59, 59, 999)\<close>, one minute before noon of 31 December, where the
  single-day bound of the search uses 23. For the year 2024 on a host in the UTC zone the
  bounds are as below, and order 113 of the example table, placed on 31 December 2024 at
  18:30 and not cancelled, is not returned with the orders of 2024.
\<close>

theorem year_filter_drops_dec31_afternoon:
  "year_bounds host_utc 2024 =
     Inr (''2024-01-01T00:00:00.000Z'', ''2024-12-31T11:59:59.999Z'') \<and>
   col row_113 ''orderedAt'' = SText ''2024-12-31T18:30:00.000Z'' \<and>
   col row_113 ''cancelled'' = SNum 0 \<and>
   getOrders host_utc orders_example (default_options\<lparr>year := Some 2024\<rparr>) =
     Inr (Rows [toOrder host_utc (select_row orders_columns row_112)])"
proof -
  have a: "year_bounds host_utc 2024 =
     Inr (''2024-01-01T00:00:00.000Z'', ''2024-12-31T11:59:59.999Z'')"
    by code_simp
  have b: "col row_113 ''orderedAt'' = SText ''2024-12-31T18:30:00.000Z''"
    and c: "col row_113 ''cancelled'' = SNum 0"
    by (simp_all add: row_113_def order_row_def col_def)
  have d: "getOrders host_utc orders_example (default_options\<lparr>year := Some 2024\<rparr>) =
     Inr (Rows [toOrder host_utc (select_row orders_columns row_112)])"
    by code_simp
  from a b c d show ?thesis by simp
qed


section \<open>Properties of the monthly breakdown\<close>

lemma monthly_loop_unroll:
  "0 \<le> m \<Longrightarrow> m \<le> 12 \<Longrightarrow>
   monthly_loop h os m acc = acc @ map (month_bucket h os) [m..11]"
proof (induction h os m acc rule: monthly_loop.induct)
  case (1 h os m monthly)
  show ?case
  proof (cases "m < 12")
    case True
    then have u: "[m..11] = m # [m + 1..11]"
      by (simp add: upto_rec1)
    from True 1 have "monthly_loop h os (m + 1) (monthly @ [month_bucket h os m]) =
        (monthly @ [month_bucket h os m]) @ map (month_bucket h os) [m + 1..11]"
      by simp
    with True show ?thesis
      by (subst monthly_loop.simps) (simp add: u)
  next
    case False
    with 1 have "m = 12" by simp
    then show ?thesis
      by (subst monthly_loop.simps) simp
  qed
qed

lemma foldl_plus: "foldl (\<lambda>sum x. sum + f x) a xs = a + sum_list (map f xs)"
  for a :: real
  by (induction xs arbitrary: a) (simp_all add: algebra_simps)

lemma length_upto_0_11: "length [0..11::int] = 12"
  by simp

lemma getMonthlyBreakdown_map: "getMonthlyBreakdown h os = map (month_bucket h os) [0..11]"
proof -
  have "monthly_loop h os 0 [] = [] @ map (month_bucket h os) [0..11]"
    by (rule monthly_loop_unroll) simp_all
  then show ?thesis
    by (simp only: getMonthlyBreakdown_def append_Nil)
qed

lemma month_bucket_sums:
  "month_bucket h os m =
     \<lparr>month = m + 1,
      orderCount = int (length (filter (\<lambda>x. getMonth h (orderedAt x) = Some m) os)),
      totalEtv = (\<Sum>x\<leftarrow>filter (\<lambda>x. getMonth h (orderedAt x) = Some m) os. js_number (etv x)),
      totalAdjustedEtv =
        (\<Sum>x\<leftarrow>filter (\<lambda>x. getMonth h (orderedAt x) = Some m) os.
           case etvFactor x of
             None \<Rightarrow> js_number (etv x)
           | Some f \<Rightarrow> js_number (etv x) * f)\<rparr>"
  by (simp add: month_bucket_def Let_def foldl_plus adjusted_term_def cong: option.case_cong)

text \<open>
  C6, as stated, fails on the code: an order without a factor adds its whole \<^verbatim>\<open>etv\<close>
  to the adjusted total of its month, not 0. Order 111 of the example table (June 2023,
  \<^verbatim>\<open>etv\<close> 10, no factor) gives the bucket of June the adjusted total 10, where the
  specification's formula sums to 0.
\<close>

theorem monthly_adjusted_total_counterexample:
  "etvFactor (toOrder host_utc (select_row orders_columns row_111)) = None \<and>
   getMonth host_utc (orderedAt (toOrder host_utc (select_row orders_columns row_111))) = Some 5 \<and>
   totalAdjustedEtv
     (getMonthlyBreakdown host_utc [toOrder host_utc (select_row orders_columns row_111)] ! 5) = 10 \<and>
   (\<Sum>x\<leftarrow>[toOrder host_utc (select_row orders_columns row_111)]. spec_adjustedEtv x) = 0"
proof -
  have o: "toOrder host_utc (select_row orders_columns row_111) =
      \<lparr>number = Some ''111'', asin = Some ''B01'', product = Some ''Lamp'',
       orderedAt = Some 1686830400000, deliveredAt = Some 0, etv = Some 10, etvFactor = None,
       isCancelled = False, etvReason = None\<rparr>"
    by code_simp
  have m: "getMonth host_utc (Some 1686830400000) = Some 5"
    by code_simp
  have t: "totalAdjustedEtv
     (getMonthlyBreakdown host_utc [toOrder host_utc (select_row orders_columns row_111)] ! 5) = 10"
    unfolding getMonthlyBreakdown_map month_bucket_sums o
    by (simp add: m upto_rec1 js_number_def)
  show ?thesis
    using t by (simp add: o m spec_adjustedEtv_def js_number_def)
qed

text \<open>
  C6, amended. \<^verbatim>\<open>getMonthlyBreakdown\<close> returns 12 buckets, for the months 1 to 12 in
  this order. The bucket of a month counts the orders whose \<^verbatim>\<open>orderedAt\<close> has that
  month in local time, its \<^verbatim>\<open>totalEtv\<close> is the sum of their \<^verbatim>\<open>etv\<close>, and its
  \<^verbatim>\<open>totalAdjustedEtv\<close> is the sum over them of \<^verbatim>\<open>etv * etvFactor\<close> where the factor
  is present and of \<^verbatim>\<open>etv\<close> where it is null.
\<close>

theorem getMonthlyBreakdown_buckets:
  "length (getMonthlyBreakdown h os) = 12 \<and>
   getMonthlyBreakdown h os =
     map (\<lambda>m. \<lparr>month = m + 1,
               orderCount = int (length (filter (\<lambda>x. getMonth h (orderedAt x) = Some m) os)),
               totalEtv = (\<Sum>x\<leftarrow>filter (\<lambda>x. getMonth h (orderedAt x) = Some m) os.
                             js_number (etv x)),
               totalAdjustedEtv =
                 (\<Sum>x\<leftarrow>filter (\<lambda>x. getMonth h (orderedAt x) = Some m) os.
                    case etvFactor x of
                      None \<Rightarrow> js_number (etv x)
                    | Some f \<Rightarrow> js_number (etv x) * f)\<rparr>) [0..11]"
proof -
  have "month_bucket h os = (\<lambda>m. \<lparr>month = m + 1,
               orderCount = int (length (filter (\<lambda>x. getMonth h (orderedAt x) = Some m) os)),
               totalEtv = (\<Sum>x\<leftarrow>filter (\<lambda>x. getMonth h (orderedAt x) = Some m) os.
                             js_number (etv x)),
               totalAdjustedEtv =
                 (\<Sum>x\<leftarrow>filter (\<lambda>x. getMonth h (orderedAt x) = Some m) os.
                    case etvFactor x of
                      None \<Rightarrow> js_number (etv x)
                    | Some f \<Rightarrow> js_number (etv x) * f)\<rparr>)"
    by (rule ext) (rule month_bucket_sums)
  then show ?thesis
    by (simp only: getMonthlyBreakdown_map length_map length_upto_0_11 simp_thms)
qed

section \<open>Properties of setting the reason\<close>

lemma map_of_set_col:
  "map_of (set_col c v r) k = (if k = c then Some v else map_of r k)"
  by (induction r) auto

lemma col_set_col: "col (set_col c v r) k = (if k = c then v else col r k)"
  by (simp add: col_def map_of_set_col)

text \<open>
  C9. On a table with the columns \<^verbatim>\<open>etvReason\<close> and \<^verbatim>\<open>number\<close>, setting the reason of
  order \<open>n\<close> succeeds. Afterwards every row with that number has NULL in \<^verbatim>\<open>etvReason\<close>
  when the reason was the empty text, and the reason itself otherwise; \<^verbatim>\<open>toOrder\<close> reads
  it back as absent, or as that text; the row's other columns are as before, and the rows
  of other orders are untouched. The route answers 200 with this table for every reason of
  at most 255 characters.
\<close>

theorem setETVReason_empty_is_null:
  assumes "''etvReason'' \<in> set (cols t)" and "''number'' \<in> set (cols t)"
  shows "\<exists>t'. setETVReasonForOrder t n (Some reason) = Inr t' \<and>
           cols t' = cols t \<and> length (rows t') = length (rows t) \<and>
           (\<forall>i<length (rows t).
              (sql_eq (col (rows t ! i) ''number'') (SText n) \<longrightarrow>
                 col (rows t' ! i) ''etvReason'' = (if reason = [] then SNull else SText reason) \<and>
                 etvReason (toOrder h (select_row (cols t') (rows t' ! i))) =
                   (if reason = [] then None else Some reason) \<and>
                 (\<forall>c. c \<noteq> ''etvReason'' \<longrightarrow> col (rows t' ! i) c = col (rows t ! i) c)) \<and>
              (\<not> sql_eq (col (rows t ! i) ''number'') (SText n) \<longrightarrow>
                 rows t' ! i = rows t ! i)) \<and>
           (length reason \<le> 255 \<longrightarrow> post_etv_reason t n reason = (200, t'))"
proof -
  let ?v = "if reason = [] then SNull else SText reason"
  let ?t' = "t\<lparr>rows := map (\<lambda>r. if sql_eq (col r ''number'') (SText n)
                                   then set_col ''etvReason'' ?v r else r) (rows t)\<rparr>"
  have s: "setETVReasonForOrder t n (Some reason) = Inr ?t'"
    using assms by (simp add: setETVReasonForOrder_def Let_def)
  have r: "etvReason (toOrder h (select_row (cols t) r')) = text_of (Some (col r' ''etvReason''))"
    for r'
    using assms(1) by (simp add: toOrder_def map_of_select_row)
  have "\<forall>i<length (rows t).
              (sql_eq (col (rows t ! i) ''number'') (SText n) \<longrightarrow>
                 col (rows ?t' ! i) ''etvReason'' = ?v \<and>
                 etvReason (toOrder h (select_row (cols ?t') (rows ?t' ! i))) =
                   (if reason = [] then None else Some reason) \<and>
                 (\<forall>c. c \<noteq> ''etvReason'' \<longrightarrow> col (rows ?t' ! i) c = col (rows t ! i) c)) \<and>
              (\<not> sql_eq (col (rows t ! i) ''number'') (SText n) \<longrightarrow>
                 rows ?t' ! i = rows t ! i)"
    by (simp add: r col_set_col text_of_def)
  moreover have "length reason \<le> 255 \<longrightarrow> post_etv_reason t n reason = (200, ?t')"
    by (simp add: post_etv_reason_def s)
  ultimately show ?thesis
    using s by (intro exI [of _ ?t']) simp
qed

text \<open>Order 112 of the example table has the reason \<^verbatim>\<open>Brand name\<close>, then the empty one.\<close>

theorem setETVReason_empty_is_null_witness:
  "''etvReason'' \<in> set (cols orders_with_reason) \<and> ''number'' \<in> set (cols orders_with_reason) \<and>
   setETVReasonForOrder orders_example ''112'' (Some ''Brand name'') = Inr orders_with_reason \<and>
   col (rows orders_with_reason ! 1) ''etvReason'' = SText ''Brand name'' \<and>
   setETVReasonForOrder orders_with_reason ''112'' (Some []) = Inr orders_example \<and>
   col (rows orders_example ! 1) ''etvReason'' = SNull \<and>
   post_etv_reason orders_with_reason ''112'' [] = (200, orders_example)"
proof -
  have h1: "''etvReason'' \<in> set (cols orders_with_reason)"
    and h2: "''number'' \<in> set (cols orders_with_reason)"
    by (simp_all add: orders_with_reason_def orders_columns_def)
  have e1: "setETVReasonForOrder orders_example ''112'' (Some ''Brand name'') =
      Inr orders_with_reason"
    by code_simp
  have e2: "setETVReasonForOrder orders_with_reason ''112'' (Some []) = Inr orders_example"
    by code_simp
  have c1: "col (rows orders_with_reason ! 1) ''etvReason'' = SText ''Brand name''"
    by code_simp
  have c2: "col (rows orders_example ! 1) ''etvReason'' = SNull"
    by code_simp
  from setETVReason_empty_is_null [OF h1 h2, of "''112''" "[]" host_utc]
  obtain t' where s: "setETVReasonForOrder orders_with_reason ''112'' (Some []) = Inr t'"
    and p: "length ([] :: string) \<le> 255 \<longrightarrow>
              post_etv_reason orders_with_reason ''112'' [] = (200, t')"
    by blast
  from s e2 have "t' = orders_example" by simp
  with p have c3: "post_etv_reason orders_with_reason ''112'' [] = (200, orders_example)"
    by simp
  show ?thesis
    apply (intro conjI)
          apply (rule h1)
         apply (rule h2)
        apply (rule e1)
       apply (rule c1)
      apply (rule e2)
     apply (rule c2)
    apply (rule c3)
    done
qed

end
